theory Spec2Isabelle
  imports Complex_Main "HOL-Library.Sublist"
begin

section \<open>Python strings\<close>

text \<open>
  A Python \<open>str\<close> is a sequence of code points. The model takes a string to be a
  \<^typ>\<open>char list\<close>, so a character is a code point below 256, and every character
  class below is Python's own class restricted to that range.

  Scores are Python floats in the source; the model computes with exact reals. The two
  differ by rounding: a sum of decimal fractions that is exact in the model can come out
  one unit in the last place lower in the code, as 0.5 + 0.1 + 0.2 does, and then a
  comparison of two scores, in the test of the loop or in the choice of the weakest
  chapter, can go the other way. The theorems below do not rest on such a comparison
  coming out one way: they use the comparison as a test that has some outcome, the fact that
  assessing a text twice gives the same scores, and the values that the source returns
  as constants.
\<close>

definition ord_char :: "char \<Rightarrow> nat" where
  "ord_char c = of_char c"

definition is_space :: "char \<Rightarrow> bool" where
  \<comment> \<open>\<open>str.isspace\<close>, also the class \<open>\s\<close> of \<open>re\<close>\<close>
  "is_space c = (let n = ord_char c in
     (9 \<le> n \<and> n \<le> 13) \<or> (28 \<le> n \<and> n \<le> 32) \<or> n = 133 \<or> n = 160)"

definition is_digit :: "char \<Rightarrow> bool" where
  \<comment> \<open>the class \<open>\d\<close> of \<open>re\<close>\<close>
  "is_digit c = (let n = ord_char c in 48 \<le> n \<and> n \<le> 57)"

definition is_upper_az :: "char \<Rightarrow> bool" where
  "is_upper_az c = (let n = ord_char c in 65 \<le> n \<and> n \<le> 90)"

definition is_lower_az :: "char \<Rightarrow> bool" where
  "is_lower_az c = (let n = ord_char c in 97 \<le> n \<and> n \<le> 122)"

definition is_word :: "char \<Rightarrow> bool" where
  \<comment> \<open>the class \<open>\w\<close> of \<open>re\<close>: \<open>str.isalnum\<close> or an underscore\<close>
  "is_word c = (let n = ord_char c in
     (48 \<le> n \<and> n \<le> 57) \<or> (65 \<le> n \<and> n \<le> 90) \<or> n = 95 \<or> (97 \<le> n \<and> n \<le> 122) \<or>
     n = 170 \<or> n = 178 \<or> n = 179 \<or> n = 181 \<or> n = 185 \<or> n = 186 \<or>
     (188 \<le> n \<and> n \<le> 190) \<or> (192 \<le> n \<and> n \<le> 214) \<or> (216 \<le> n \<and> n \<le> 246) \<or>
     248 \<le> n)"

definition lower_char :: "char \<Rightarrow> char" where
  "lower_char c = (let n = ord_char c in
     if (65 \<le> n \<and> n \<le> 90) \<or> (192 \<le> n \<and> n \<le> 214) \<or> (216 \<le> n \<and> n \<le> 222)
     then char_of (n + 32) else c)"

definition upper_char :: "char \<Rightarrow> char" where
  \<comment> \<open>the upper-case forms of U+00B5, U+00DF and U+00FF lie outside the range and are
      no character of any pattern of this program; they are left unchanged\<close>
  "upper_char c = (let n = ord_char c in
     if (97 \<le> n \<and> n \<le> 122) \<or> (224 \<le> n \<and> n \<le> 246) \<or> (248 \<le> n \<and> n \<le> 254)
     then char_of (n - 32) else c)"

definition lower :: "string \<Rightarrow> string" where
  "lower s = map lower_char s"

definition strip :: "string \<Rightarrow> string" where
  "strip s = rev (dropWhile is_space (rev (dropWhile is_space s)))"

fun split_ws :: "string \<Rightarrow> string list" where
  \<comment> \<open>\<open>s.split()\<close>: the maximal runs of characters that are not whitespace\<close>
  "split_ws [] = []"
| "split_ws (c # cs) =
     (if is_space c then split_ws cs
      else if cs = [] \<or> is_space (hd cs) then [c] # split_ws cs
      else (case split_ws cs of w # ws \<Rightarrow> (c # w) # ws | [] \<Rightarrow> [[c]]))"

fun contains :: "string \<Rightarrow> string \<Rightarrow> bool" where
  \<comment> \<open>\<open>sub in s\<close>\<close>
  "contains sub [] = (sub = [])"
| "contains sub (c # cs) = (prefix sub (c # cs) \<or> contains sub cs)"

fun split_on :: "string \<Rightarrow> string \<Rightarrow> nat \<Rightarrow> string list" where
  \<comment> \<open>\<open>s.split(sep)\<close> for a separator that is not empty; the number is how many
      characters of a separator just found are still to be skipped\<close>
  "split_on sep [] k = [[]]"
| "split_on sep (c # cs) (Suc k) = split_on sep cs k"
| "split_on sep (c # cs) 0 =
     (if prefix sep (c # cs) then [] # split_on sep cs (length sep - 1)
      else (case split_on sep cs 0 of p # ps \<Rightarrow> (c # p) # ps | [] \<Rightarrow> [[c]]))"

definition split_sep :: "string \<Rightarrow> string \<Rightarrow> string list" where
  "split_sep s sep = split_on sep s 0"

fun count_from :: "string \<Rightarrow> string \<Rightarrow> nat \<Rightarrow> nat" where
  "count_from sub [] k = 0"
| "count_from sub (c # cs) (Suc k) = count_from sub cs k"
| "count_from sub (c # cs) 0 =
     (if prefix sub (c # cs) then Suc (count_from sub cs (length sub - 1))
      else count_from sub cs 0)"

definition count_sub :: "string \<Rightarrow> string \<Rightarrow> nat" where
  \<comment> \<open>\<open>s.count(sub)\<close>, occurrences that do not overlap, for \<open>sub\<close> not empty\<close>
  "count_sub s sub = count_from sub s 0"

fun replace_first :: "string \<Rightarrow> string \<Rightarrow> string \<Rightarrow> string" where
  \<comment> \<open>\<open>s.replace(old, new, 1)\<close> for \<open>old\<close> not empty\<close>
  "replace_first old new [] = []"
| "replace_first old new (c # cs) =
     (if prefix old (c # cs) then new @ drop (length old) (c # cs)
      else c # replace_first old new cs)"

fun replace_from :: "string \<Rightarrow> string \<Rightarrow> string \<Rightarrow> nat \<Rightarrow> string" where
  "replace_from old new [] k = []"
| "replace_from old new (c # cs) (Suc k) = replace_from old new cs k"
| "replace_from old new (c # cs) 0 =
     (if prefix old (c # cs) then new @ replace_from old new cs (length old - 1)
      else c # replace_from old new cs 0)"

definition replace_all :: "string \<Rightarrow> string \<Rightarrow> string \<Rightarrow> string" where
  \<comment> \<open>\<open>s.replace(old, new)\<close> for \<open>old\<close> not empty\<close>
  "replace_all old new s = replace_from old new s 0"

definition endswith :: "string \<Rightarrow> string \<Rightarrow> bool" where
  "endswith s suf = suffix suf s"

fun str_join :: "string \<Rightarrow> string list \<Rightarrow> string" where
  "str_join sep [] = []"
| "str_join sep [x] = x"
| "str_join sep (x # y # ys) = x @ sep @ str_join sep (y # ys)"

definition slice :: "string \<Rightarrow> nat \<Rightarrow> nat \<Rightarrow> string" where
  \<comment> \<open>\<open>s[i:j]\<close> for indices that are not negative\<close>
  "slice s i j = take (j - i) (drop i s)"

section \<open>Regular expressions\<close>

text \<open>
  The patterns of the program use character classes, literal characters, alternation, the
  anchors \<open>^\<close> and \<open>\b\<close>, and quantifiers that range over a single character class.
  The matcher below is a backtracking matcher for exactly this fragment: it tries the
  alternatives in the order of \<open>re\<close> (a greedy quantifier takes a character before it
  tries to stop, a lazy one stops before it tries to take one, the left alternative comes
  first) and returns what is left of the input after the first way to match.
\<close>

datatype atom = AChar char | ARange char char | ASpace | ADigit | AWord

datatype cset = OneOf "atom list" | NoneOf "atom list"

datatype rx =
    Eps
  | Sym cset
  | Rep cset nat "nat option" bool
  | Bol
  | WordB
  | Seq rx rx
  | Alt rx rx

fun atom_has :: "atom \<Rightarrow> char \<Rightarrow> bool" where
  "atom_has (AChar a) c = (c = a)"
| "atom_has (ARange a b) c = (ord_char a \<le> ord_char c \<and> ord_char c \<le> ord_char b)"
| "atom_has ASpace c = is_space c"
| "atom_has ADigit c = is_digit c"
| "atom_has AWord c = is_word c"

definition atom_match :: "bool \<Rightarrow> atom \<Rightarrow> char \<Rightarrow> bool" where
  \<comment> \<open>the flag is \<open>re.IGNORECASE\<close>\<close>
  "atom_match ic a c =
     (atom_has a c \<or> (ic \<and> (atom_has a (lower_char c) \<or> atom_has a (upper_char c))))"

fun cset_has :: "bool \<Rightarrow> cset \<Rightarrow> char \<Rightarrow> bool" where
  "cset_has ic (OneOf as) c = list_ex (\<lambda>a. atom_match ic a c) as"
| "cset_has ic (NoneOf as) c = (\<not> list_ex (\<lambda>a. atom_match ic a c) as)"

fun rx_size :: "rx \<Rightarrow> nat" where
  "rx_size (Seq a b) = rx_size a + rx_size b + 1"
| "rx_size (Alt a b) = rx_size a + rx_size b + 1"
| "rx_size r = 1"

definition is_word_opt :: "char option \<Rightarrow> bool" where
  "is_word_opt p = (case p of None \<Rightarrow> False | Some c \<Rightarrow> is_word c)"

definition dec_max :: "nat option \<Rightarrow> nat option" where
  "dec_max mx = map_option (\<lambda>j. j - 1) mx"

function (sequential) rx_match :: "bool \<Rightarrow> rx list \<Rightarrow> char option \<Rightarrow> string \<Rightarrow> string option" where
  \<comment> \<open>the list is what remains to be matched, the character the one before the position\<close>
  "rx_match ic [] prev s = Some s"
| "rx_match ic (Eps # k) prev s = rx_match ic k prev s"
| "rx_match ic (Sym cs # k) prev [] = None"
| "rx_match ic (Sym cs # k) prev (c # s) =
     (if cset_has ic cs c then rx_match ic k (Some c) s else None)"
| "rx_match ic (Bol # k) prev s = (if prev = None then rx_match ic k prev s else None)"
| "rx_match ic (WordB # k) prev s =
     (if is_word_opt prev \<noteq> is_word_opt (case s of [] \<Rightarrow> None | c # _ \<Rightarrow> Some c)
      then rx_match ic k prev s else None)"
| "rx_match ic (Seq a b # k) prev s = rx_match ic (a # b # k) prev s"
| "rx_match ic (Alt a b # k) prev s =
     (case rx_match ic (a # k) prev s of
        Some r \<Rightarrow> Some r
      | None \<Rightarrow> rx_match ic (b # k) prev s)"
| "rx_match ic (Rep cs mn mx g # k) prev [] =
     (if mn = 0 then rx_match ic k prev [] else None)"
| "rx_match ic (Rep cs mn mx g # k) prev (c # s) =
     (if mx \<noteq> Some 0 \<and> cset_has ic cs c then
        (if 0 < mn then rx_match ic (Rep cs (mn - 1) (dec_max mx) g # k) (Some c) s
         else if g then
           (case rx_match ic (Rep cs 0 (dec_max mx) g # k) (Some c) s of
              Some r \<Rightarrow> Some r
            | None \<Rightarrow> rx_match ic k prev (c # s))
         else
           (case rx_match ic k prev (c # s) of
              Some r \<Rightarrow> Some r
            | None \<Rightarrow> rx_match ic (Rep cs 0 (dec_max mx) g # k) (Some c) s))
      else if mn = 0 then rx_match ic k prev (c # s) else None)"
  by pat_completeness auto
termination
  by (relation "inv_image (less_than <*lex*> less_than)
        (\<lambda>(ic, k, prev, s). (sum_list (map rx_size k), length s))") auto

datatype tok = Plain char | Found string

fun rx_scan :: "bool \<Rightarrow> rx \<Rightarrow> char option \<Rightarrow> string \<Rightarrow> nat \<Rightarrow> tok list" where
  \<comment> \<open>the matches from left to right that do not overlap, and the characters between
      them; the number is how many characters of a match just found are still to be
      skipped. No pattern of the program matches the empty string; where a pattern would,
      the scan moves on by one character\<close>
  "rx_scan ic r prev [] n = []"
| "rx_scan ic r prev (c # s) (Suc n) = rx_scan ic r (Some c) s n"
| "rx_scan ic r prev (c # s) 0 =
     (case rx_match ic [r] prev (c # s) of
        None \<Rightarrow> Plain c # rx_scan ic r (Some c) s 0
      | Some rest \<Rightarrow>
          (let n = length (c # s) - length rest in
           if n = 0 then Plain c # rx_scan ic r (Some c) s 0
           else Found (take n (c # s)) # rx_scan ic r (Some c) s (n - 1)))"

definition re_match :: "bool \<Rightarrow> rx \<Rightarrow> string \<Rightarrow> bool" where
  \<comment> \<open>\<open>re.match(pattern, s)\<close> as a truth value\<close>
  "re_match ic r s = (rx_match ic [r] None s \<noteq> None)"

fun found_list :: "tok list \<Rightarrow> string list" where
  "found_list [] = []"
| "found_list (Plain c # ts) = found_list ts"
| "found_list (Found m # ts) = m # found_list ts"

definition re_findall :: "bool \<Rightarrow> rx \<Rightarrow> string \<Rightarrow> string list" where
  \<comment> \<open>the whole text of every match; where the pattern has groups the program only
      counts the results, which are as many as there are matches\<close>
  "re_findall ic r s = found_list (rx_scan ic r None s 0)"

fun sub_toks :: "(string \<Rightarrow> string) \<Rightarrow> tok list \<Rightarrow> string" where
  "sub_toks f [] = []"
| "sub_toks f (Plain c # ts) = c # sub_toks f ts"
| "sub_toks f (Found m # ts) = f m @ sub_toks f ts"

definition re_sub :: "bool \<Rightarrow> rx \<Rightarrow> (string \<Rightarrow> string) \<Rightarrow> string \<Rightarrow> string" where
  "re_sub ic r f s = sub_toks f (rx_scan ic r None s 0)"

fun split_toks :: "bool \<Rightarrow> tok list \<Rightarrow> string list" where
  \<comment> \<open>the flag tells whether the pattern is one group, so that \<open>re.split\<close> keeps the
      separators\<close>
  "split_toks keep [] = [[]]"
| "split_toks keep (Plain c # ts) =
     (case split_toks keep ts of p # ps \<Rightarrow> (c # p) # ps | [] \<Rightarrow> [[c]])"
| "split_toks keep (Found m # ts) =
     (if keep then [] # m # split_toks keep ts else [] # split_toks keep ts)"

definition re_split :: "bool \<Rightarrow> rx \<Rightarrow> string \<Rightarrow> string list" where
  "re_split keep r s = split_toks keep (rx_scan False r None s 0)"

definition rx_lit :: "string \<Rightarrow> rx" where
  "rx_lit s = foldr (\<lambda>c r. Seq (Sym (OneOf [AChar c])) r) s Eps"

definition rx_seq :: "rx list \<Rightarrow> rx" where
  "rx_seq rs = foldr Seq rs Eps"

definition rx_alts :: "rx list \<Rightarrow> rx" where
  \<comment> \<open>\<open>a|b|c\<close>, for a list that is not empty\<close>
  "rx_alts rs = foldr Alt (butlast rs) (last rs)"

definition many1 :: "cset \<Rightarrow> rx" where
  "many1 cs = Rep cs 1 None True"

definition many0 :: "cset \<Rightarrow> rx" where
  "many0 cs = Rep cs 0 None True"

definition c_space :: cset where "c_space = OneOf [ASpace]"
definition c_digit :: cset where "c_digit = OneOf [ADigit]"
definition c_upper :: cset where "c_upper = OneOf [ARange CHR ''A'' CHR ''Z'']"
definition c_lower :: cset where "c_lower = OneOf [ARange CHR ''a'' CHR ''z'']"
definition c_chr :: "char \<Rightarrow> cset" where "c_chr c = OneOf [AChar c]"
definition c_not_quote :: cset where "c_not_quote = NoneOf [AChar CHR 0x22]"
definition c_sentence_end :: cset where
  "c_sentence_end = OneOf [AChar CHR ''.'', AChar CHR ''!'', AChar CHR ''?'']"

section \<open>Statistics\<close>

definition mean :: "real list \<Rightarrow> real" where
  \<comment> \<open>\<open>statistics.mean\<close>; the program calls it on lists that are not empty\<close>
  "mean xs = sum_list xs / real (length xs)"

definition variance :: "real list \<Rightarrow> real" where
  \<comment> \<open>\<open>statistics.variance\<close>, the sample variance; the program calls it on lists of
      two elements or more\<close>
  "variance xs = (let m = mean xs in
     sum_list (map (\<lambda>x. (x - m) * (x - m)) xs) / (real (length xs) - 1))"

definition word_counts :: "string list \<Rightarrow> real list" where
  "word_counts ss = map (\<lambda>s. real (length (split_ws s))) ss"

section \<open>Quality metrics\<close>

record quality_metrics =
  readability_score :: real
  story_structure_score :: real
  character_consistency_score :: real
  pacing_score :: real
  dialogue_effectiveness_score :: real
  narrative_flow_score :: real
  tension_score :: real
  prose_quality_score :: real
  overall_score :: real

definition is_better_than :: "quality_metrics \<Rightarrow> quality_metrics \<Rightarrow> bool" where
  "is_better_than self other =
     (readability_score self \<ge> readability_score other \<and>
      story_structure_score self \<ge> story_structure_score other \<and>
      character_consistency_score self \<ge> character_consistency_score other \<and>
      pacing_score self \<ge> pacing_score other \<and>
      dialogue_effectiveness_score self \<ge> dialogue_effectiveness_score other \<and>
      narrative_flow_score self \<ge> narrative_flow_score other \<and>
      tension_score self \<ge> tension_score other \<and>
      prose_quality_score self \<ge> prose_quality_score other \<and>
      overall_score self > overall_score other)"

text \<open>
  The dominance relation in the words of the specification: the eight dimension scores,
  in the order in which the specification lists them, compared one by one, and the
  aggregate compared strictly.
\<close>

definition dimension_scores :: "quality_metrics \<Rightarrow> real list" where
  "dimension_scores m =
     [readability_score m, story_structure_score m, character_consistency_score m,
      pacing_score m, dialogue_effectiveness_score m, narrative_flow_score m,
      tension_score m, prose_quality_score m]"

definition dominates_spec :: "quality_metrics \<Rightarrow> quality_metrics \<Rightarrow> bool" where
  "dominates_spec a b =
     ((\<forall>i < 8. dimension_scores a ! i \<ge> dimension_scores b ! i) \<and>
      overall_score a > overall_score b)"

definition example_metrics :: "real \<Rightarrow> real \<Rightarrow> quality_metrics" where
  \<comment> \<open>a record with the same score in seven dimensions, used for concrete instances\<close>
  "example_metrics r x =
     \<lparr>readability_score = r, story_structure_score = x, character_consistency_score = x,
      pacing_score = x, dialogue_effectiveness_score = x, narrative_flow_score = x,
      tension_score = x, prose_quality_score = x, overall_score = (r + 7 * x) / 8\<rparr>"

section \<open>Chapter detection\<close>

record chapter_boundary =
  chapter_number :: int
  start_position :: nat
  end_position :: nat
  title :: "string option"
  confidence :: real

text \<open>
  The heading patterns of the detector, in the order of the source:
  \<^verbatim>\<open>^Chapter\s+\d+\<close>, \<^verbatim>\<open>^CHAPTER\s+\d+\<close>, \<^verbatim>\<open>^\d+\.\<close>, \<^verbatim>\<open>^Part\s+\d+\<close>,
  \<^verbatim>\<open>^PART\s+\d+\<close>, \<^verbatim>\<open>^\*\s*\*\s*\*\<close>, \<^verbatim>\<open>^-{3,}\<close> and \<^verbatim>\<open>^#{1,3}\s\<close>.
\<close>

definition chapter_patterns :: "rx list" where
  "chapter_patterns =
     [rx_seq [Bol, rx_lit ''Chapter'', many1 c_space, many1 c_digit],
      rx_seq [Bol, rx_lit ''CHAPTER'', many1 c_space, many1 c_digit],
      rx_seq [Bol, many1 c_digit, Sym (c_chr CHR ''.'')],
      rx_seq [Bol, rx_lit ''Part'', many1 c_space, many1 c_digit],
      rx_seq [Bol, rx_lit ''PART'', many1 c_space, many1 c_digit],
      rx_seq [Bol, Sym (c_chr CHR ''*''), many0 c_space, Sym (c_chr CHR ''*''), many0 c_space,
              Sym (c_chr CHR ''*'')],
      rx_seq [Bol, Rep (c_chr CHR ''-'') 3 None True],
      rx_seq [Bol, Rep (c_chr CHR ''#'') 1 (Some 3) True, Sym c_space]]"

definition matches_heading :: "string \<Rightarrow> bool" where
  \<comment> \<open>whether \<open>re.match(pattern, line_stripped, re.IGNORECASE)\<close> holds for a pattern of
      the list\<close>
  "matches_heading line_stripped =
     list_ex (\<lambda>pattern. re_match True pattern line_stripped) chapter_patterns"

definition get_position_at_line :: "string \<Rightarrow> nat \<Rightarrow> nat" where
  "get_position_at_line text line_number =
     (let lines = split_sep text [CHR 0x0A]
      in sum_list (map (\<lambda>line. length line + 1) (take line_number lines)))"

definition title_word_pattern :: rx where
  \<comment> \<open>\<^verbatim>\<open>^(Chapter|CHAPTER|Part|PART)\s*\d*:?\s*\<close>\<close>
  "title_word_pattern =
     rx_seq [Bol, rx_alts [rx_lit ''Chapter'', rx_lit ''CHAPTER'', rx_lit ''Part'', rx_lit ''PART''],
             many0 c_space, many0 c_digit, Rep (c_chr CHR '':'') 0 (Some 1) True, many0 c_space]"

definition title_number_pattern :: rx where
  \<comment> \<open>\<^verbatim>\<open>^\d+\.?\s*\<close>\<close>
  "title_number_pattern =
     rx_seq [Bol, many1 c_digit, Rep (c_chr CHR ''.'') 0 (Some 1) True, many0 c_space]"

definition title_marker_pattern :: rx where
  \<comment> \<open>\<^verbatim>\<open>^[*-]+\s*\<close>\<close>
  "title_marker_pattern =
     rx_seq [Bol, many1 (OneOf [AChar CHR ''*'', AChar CHR ''-'']), many0 c_space]"

definition title_hash_pattern :: rx where
  \<comment> \<open>\<^verbatim>\<open>^#+\s*\<close>\<close>
  "title_hash_pattern = rx_seq [Bol, many1 (c_chr CHR ''#''), many0 c_space]"

definition extract_chapter_title :: "string \<Rightarrow> string option" where
  \<comment> \<open>the first substitution is made with \<open>re.IGNORECASE\<close>\<close>
  "extract_chapter_title line =
     (let title = re_sub True title_word_pattern (\<lambda>m. []) line;
          title = re_sub False title_number_pattern (\<lambda>m. []) title;
          title = re_sub False title_marker_pattern (\<lambda>m. []) title;
          title = re_sub False title_hash_pattern (\<lambda>m. []) title
      in if strip title \<noteq> [] then Some (strip title) else None)"

definition explicit_chapter_pattern :: rx where
  \<comment> \<open>\<^verbatim>\<open>^(Chapter|CHAPTER)\s+\d+\<close>\<close>
  "explicit_chapter_pattern =
     rx_seq [Bol, rx_alts [rx_lit ''Chapter'', rx_lit ''CHAPTER''], many1 c_space, many1 c_digit]"

definition calculate_confidence :: "string \<Rightarrow> nat \<Rightarrow> string list \<Rightarrow> real" where
  "calculate_confidence line line_index all_lines =
     (let confidence = 0.5;
          confidence =
            (if re_match False explicit_chapter_pattern line
             then confidence + 0.4 else confidence);
          confidence =
            (if line_index > 0 \<and> strip (all_lines ! (line_index - 1)) = []
             then confidence + 0.1 else confidence);
          confidence =
            (if int line_index < int (length all_lines) - 1 \<and>
                strip (all_lines ! (line_index + 1)) = []
             then confidence + 0.1 else confidence)
      in min confidence 1.0)"

definition close_last :: "chapter_boundary list \<Rightarrow> nat \<Rightarrow> chapter_boundary list" where
  \<comment> \<open>\<open>chapters[-1].end_position = p\<close> on a list that is not empty\<close>
  "close_last chapters p = butlast chapters @ [(last chapters)\<lparr>end_position := p\<rparr>]"

fun detect_loop ::
  "string \<Rightarrow> string list \<Rightarrow> nat \<Rightarrow> string list \<Rightarrow> chapter_boundary list \<Rightarrow> int
     \<Rightarrow> chapter_boundary list" where
  \<comment> \<open>the loop over \<open>enumerate(lines)\<close>: the index and the lines still to come, the
      chapters found so far and the number of the next chapter. The inner loop over the
      patterns runs its body at the first pattern that matches and then breaks; the body
      does not depend on which pattern that was\<close>
  "detect_loop manuscript lines i [] chapters current_chapter = chapters"
| "detect_loop manuscript lines i (line # rest) chapters current_chapter =
     (let line_stripped = strip line in
      if matches_heading line_stripped then
        (let chapters1 =
               (if chapters \<noteq> [] then close_last chapters (get_position_at_line manuscript i)
                else chapters);
             title = extract_chapter_title line_stripped;
             start_pos = get_position_at_line manuscript i;
             conf = calculate_confidence line_stripped i lines;
             chapter = \<lparr>chapter_number = current_chapter, start_position = start_pos,
                        end_position = length manuscript, title = title, confidence = conf\<rparr>
         in detect_loop manuscript lines (i + 1) rest (chapters1 @ [chapter])
              (current_chapter + 1))
      else detect_loop manuscript lines (i + 1) rest chapters current_chapter)"

definition detect_chapters :: "string \<Rightarrow> chapter_boundary list" where
  "detect_chapters manuscript =
     (let lines = split_sep manuscript [CHR 0x0A];
          chapters = detect_loop manuscript lines 0 lines [] 1
      in if chapters = [] then
           [\<lparr>chapter_number = 1, start_position = 0, end_position = length manuscript,
             title = None, confidence = 1.0\<rparr>]
         else chapters)"

section \<open>Quality assessment\<close>

datatype py_error =
    ZeroDivisionError
  | NoChaptersDetected
  | ChapterNotFound int

definition quote :: char where
  "quote = CHR 0x22"

definition apostrophe :: char where
  "apostrophe = CHR 0x27"

definition newline :: char where
  "newline = CHR 0x0A"

definition sentences_of :: "string \<Rightarrow> string list" where
  \<comment> \<open>\<open>re.split(r'[.!?]+', text)\<close>\<close>
  "sentences_of text = re_split False (many1 c_sentence_end) text"

definition paragraphs_of :: "string \<Rightarrow> string list" where
  \<comment> \<open>\<open>[p.strip() for p in text.split('\n\n') if p.strip()]\<close>\<close>
  "paragraphs_of text =
     map strip (filter (\<lambda>p. strip p \<noteq> []) (split_sep text [newline, newline]))"

definition name_pattern :: rx where
  \<comment> \<open>\<open>\b[A-Z][a-z]+\b\<close>\<close>
  "name_pattern = rx_seq [WordB, Sym c_upper, many1 c_lower, WordB]"

definition dialogue_pattern :: rx where
  \<comment> \<open>\<open>"[^"]*"\<close>\<close>
  "dialogue_pattern = rx_seq [Sym (c_chr quote), many0 c_not_quote, Sym (c_chr quote)]"

definition count_where :: "('a \<Rightarrow> bool) \<Rightarrow> 'a list \<Rightarrow> nat" where
  \<comment> \<open>\<open>sum(1 for x in xs if p(x))\<close>\<close>
  "count_where p xs = length (filter p xs)"

definition assess_readability :: "string \<Rightarrow> py_error + real" where
  "assess_readability text =
     (let words = split_ws text;
          sentences = sentences_of text
      in if words = [] \<or> sentences = [] then Inr 0.0
         else
           (let nonblank = filter (\<lambda>s. strip s \<noteq> []) sentences
            in if nonblank = [] then Inl ZeroDivisionError
               else
                 (let avg_words_per_sentence = real (length words) / real (length nonblank);
                      sentence_lengths = word_counts nonblank;
                      length_variance =
                        (if length sentence_lengths > 1 then variance sentence_lengths else 0);
                      complex_words = count_where (\<lambda>word. length word > 6) words;
                      complexity_ratio = real complex_words / real (length words);
                      readability_score = 1.0;
                      readability_score =
                        (if avg_words_per_sentence > 25 then readability_score - 0.3
                         else if avg_words_per_sentence > 20 then readability_score - 0.1
                         else readability_score);
                      readability_score =
                        (if length_variance > 10 then readability_score + 0.1
                         else readability_score);
                      readability_score =
                        (if complexity_ratio > 0.3 then readability_score - 0.2
                         else readability_score)
                  in Inr (max 0.0 (min 1.0 readability_score)))))"

definition assess_story_structure :: "string \<Rightarrow> real" where
  "assess_story_structure text =
     (let paragraphs = paragraphs_of text
      in if paragraphs = [] then 0.0
         else
           (let score = 0.5;
                score = (if length paragraphs \<ge> 3 then score + 0.2 else score);
                transition_words =
                  [''meanwhile'', ''later'', ''suddenly'', ''then'', ''after'', ''before''];
                transitions =
                  sum_list (map (\<lambda>p. count_where (\<lambda>word. contains word (lower p)) transition_words)
                              paragraphs);
                score =
                  (if transitions > 0 then score + min 0.2 (real transitions * 0.05) else score);
                para_lengths = word_counts paragraphs;
                score =
                  (if para_lengths \<noteq> [] then
                     (let avg_length = mean para_lengths
                      in if 50 \<le> avg_length \<and> avg_length \<le> 150 then score + 0.1 else score)
                   else score)
            in min 1.0 score))"

definition said_by_name_pattern :: rx where
  \<comment> \<open>\<^verbatim>\<open>"[^"]*"\s*([A-Z][a-z]+\s+said|said\s+[A-Z][a-z]+)\<close>\<close>
  "said_by_name_pattern =
     rx_seq [Sym (c_chr quote), many0 c_not_quote, Sym (c_chr quote), many0 c_space,
             rx_alts [rx_seq [Sym c_upper, many1 c_lower, many1 c_space, rx_lit ''said''],
                      rx_seq [rx_lit ''said'', many1 c_space, Sym c_upper, many1 c_lower]]]"

definition action_pattern :: rx where
  \<comment> \<open>\<^verbatim>\<open>([A-Z][a-z]+)\s+(walked|ran|said|looked|turned)\<close>\<close>
  "action_pattern =
     rx_seq [Sym c_upper, many1 c_lower, many1 c_space,
             rx_alts [rx_lit ''walked'', rx_lit ''ran'', rx_lit ''said'', rx_lit ''looked'',
                      rx_lit ''turned'']]"

definition assess_character_consistency :: "string \<Rightarrow> real" where
  "assess_character_consistency text =
     (let character_names = set (re_findall False name_pattern text);
          common_words = set [''The'', ''This'', ''That'', ''Then'', ''When'', ''Where'', ''What'',
                              ''Who'', ''How''];
          character_names = character_names - common_words
      in if character_names = {} then 0.7
         else
           (let score = 0.5;
                dialogue_patterns = re_findall False said_by_name_pattern text;
                score = (if dialogue_patterns \<noteq> [] then score + 0.2 else score);
                action_patterns = re_findall False action_pattern text;
                score = (if action_patterns \<noteq> [] then score + 0.2 else score)
            in min 1.0 score))"

definition assess_pacing :: "string \<Rightarrow> real" where
  "assess_pacing text =
     (let sentences = sentences_of text;
          sentence_lengths = word_counts (filter (\<lambda>s. strip s \<noteq> []) sentences)
      in if sentence_lengths = [] then 0.0
         else
           (let score = 0.5;
                score =
                  (if length sentence_lengths > 1 then
                     (let v = variance sentence_lengths
                      in if v > 20 then score + 0.3 else score)
                   else score);
                short_sentences = count_where (\<lambda>l. l \<le> 5) sentence_lengths;
                score =
                  (if short_sentences > 0 then score + min 0.2 (real short_sentences * 0.02)
                   else score)
            in min 1.0 score))"

definition dialogue_tag_pattern :: rx where
  \<comment> \<open>\<^verbatim>\<open>"[^"]*"\s*[a-z]+\s+said|said\s+[a-z]+\<close>, used with \<open>re.IGNORECASE\<close>\<close>
  "dialogue_tag_pattern =
     Alt (rx_seq [Sym (c_chr quote), many0 c_not_quote, Sym (c_chr quote), many0 c_space,
                  many1 c_lower, many1 c_space, rx_lit ''said''])
         (rx_seq [rx_lit ''said'', many1 c_space, many1 c_lower])"

definition assess_dialogue_effectiveness :: "string \<Rightarrow> real" where
  "assess_dialogue_effectiveness text =
     (let dialogue_matches = re_findall False dialogue_pattern text
      in if dialogue_matches = [] then 0.6
         else
           (let score = 0.5;
                dialogue_lengths = word_counts dialogue_matches;
                score =
                  (if length dialogue_lengths > 1 then
                     (let v = variance dialogue_lengths
                      in if v > 5 then score + 0.2 else score)
                   else score);
                dialogue_tags = re_findall True dialogue_tag_pattern text;
                tag_ratio = real (length dialogue_tags) / real (length dialogue_matches);
                score = (if 0.3 \<le> tag_ratio \<and> tag_ratio \<le> 0.7 then score + 0.2 else score);
                contractions = count_where (\<lambda>d. apostrophe \<in> set d) dialogue_matches;
                score = (if contractions > 0 then score + 0.1 else score)
            in min 1.0 score))"

definition assess_narrative_flow :: "string \<Rightarrow> real" where
  "assess_narrative_flow text =
     (let paragraphs = paragraphs_of text
      in if length paragraphs < 2 then 0.5
         else
           (let score = 0.5;
                transition_words =
                  [''however'', ''meanwhile'', ''therefore'', ''consequently'', ''furthermore'',
                   ''additionally'', ''moreover'', ''nevertheless'', ''nonetheless'', ''thus''];
                transitions_found =
                  count_where
                    (\<lambda>p. let first_sentence = lower (hd (split_sep p ''.''))
                         in list_ex (\<lambda>word. contains word first_sentence) transition_words)
                    (tl paragraphs);
                score =
                  (if transitions_found > 0 then score + min 0.3 (real transitions_found * 0.1)
                   else score)
            in min 1.0 score))"

definition assess_tension :: "string \<Rightarrow> real" where
  "assess_tension text =
     (let score = 0.5;
          tension_words =
            [''suddenly'', ''urgent'', ''danger'', ''fear'', ''panic'', ''rush'', ''quick'',
             ''immediately'', ''emergency'', ''crisis'', ''threat'', ''worried'', ''anxious''];
          tension_count = count_where (\<lambda>word. contains word (lower text)) tension_words;
          score =
            (if tension_count > 0 then score + min 0.3 (real tension_count * 0.05) else score);
          sentences = sentences_of text;
          short_sentences =
            count_where (\<lambda>s. length (split_ws s) \<le> 5 \<and> strip s \<noteq> []) sentences;
          score =
            (if short_sentences > 0 then score + min 0.2 (real short_sentences * 0.02)
             else score)
      in min 1.0 score)"

definition assess_prose_quality :: "string \<Rightarrow> real" where
  "assess_prose_quality text =
     (let words = split_ws text
      in if words = [] then 0.0
         else
           (let score = 0.5;
                unique_words = card (set (map lower words));
                variety_ratio = real unique_words / real (length words);
                score = (if variety_ratio > 0.5 then score + 0.2 else score);
                adverbs = count_where (\<lambda>word. endswith word ''ly'') words;
                adverb_ratio = real adverbs / real (length words);
                score =
                  (if adverb_ratio < 0.05 then score + 0.1
                   else if adverb_ratio > 0.1 then score - 0.1
                   else score);
                weak_verbs = [''went'', ''said'', ''looked'', ''walked'', ''was'', ''were''];
                weak_verb_count = count_where (\<lambda>word. lower word \<in> set weak_verbs) words;
                score =
                  (if real weak_verb_count / real (length words) < 0.1 then score + 0.2
                   else score)
            in max 0.0 (min 1.0 score)))"

definition assess_quality :: "string \<Rightarrow> py_error + quality_metrics" where
  \<comment> \<open>the optional \<open>context\<close> of the source is read by none of the assessments\<close>
  "assess_quality text =
     (case assess_readability text of
        Inl e \<Rightarrow> Inl e
      | Inr readability \<Rightarrow>
          (let structure = assess_story_structure text;
               character_consistency = assess_character_consistency text;
               pacing = assess_pacing text;
               dialogue = assess_dialogue_effectiveness text;
               flow = assess_narrative_flow text;
               tension = assess_tension text;
               prose = assess_prose_quality text;
               overall = mean [readability, structure, character_consistency, pacing, dialogue,
                               flow, tension, prose]
           in Inr \<lparr>readability_score = readability,
                    story_structure_score = structure,
                    character_consistency_score = character_consistency,
                    pacing_score = pacing,
                    dialogue_effectiveness_score = dialogue,
                    narrative_flow_score = flow,
                    tension_score = tension,
                    prose_quality_score = prose,
                    overall_score = overall\<rparr>))"

section \<open>Problem analysis\<close>

record problem_analysis =
  structural_issues :: "string list"
  narrative_issues :: "string list"
  character_issues :: "string list"
  pacing_issues :: "string list"
  dialogue_issues :: "string list"
  prose_issues :: "string list"
  severity_score :: real

function str_nat :: "nat \<Rightarrow> string" where
  \<comment> \<open>\<open>str(n)\<close>, the decimal digits\<close>
  "str_nat n =
     (if n < 10 then [char_of (48 + n)] else str_nat (n div 10) @ [char_of (48 + n mod 10)])"
  by pat_completeness auto
termination
  by (relation "measure (\<lambda>n. n)") auto

declare str_nat.simps [simp del]

definition analyze_structural_issues :: "string \<Rightarrow> string list" where
  "analyze_structural_issues text =
     (let issues = [];
          paragraphs = paragraphs_of text;
          issues =
            (if length paragraphs < 3
             then issues @ [''Chapter may be too short or lack proper structure'']
             else issues);
          long_paragraphs = filter (\<lambda>p. length (split_ws p) > 200) paragraphs;
          issues =
            (if long_paragraphs \<noteq> []
             then issues @ [''Found '' @ str_nat (length long_paragraphs) @
                            '' overly long paragraphs'']
             else issues);
          short_paragraphs = filter (\<lambda>p. length (split_ws p) < 10) paragraphs;
          issues =
            (if real (length short_paragraphs) > real (length paragraphs) * 0.3
             then issues @ [''Too many very short paragraphs - may indicate choppy structure'']
             else issues)
      in issues)"

definition analyze_narrative_issues :: "string \<Rightarrow> string list" where
  "analyze_narrative_issues text =
     (let issues = [];
          first_person_indicators = [''I '', ''me '', ''my '', ''mine ''];
          third_person_indicators = [''he '', ''she '', ''they '', ''his '', ''her '', ''their ''];
          has_first_person = list_ex (\<lambda>indicator. contains indicator text) first_person_indicators;
          has_third_person = list_ex (\<lambda>indicator. contains indicator text) third_person_indicators;
          issues =
            (if has_first_person \<and> has_third_person
             then issues @ [''Potential POV inconsistency - mixing first and third person'']
             else issues);
          past_tense_indicators = [''was'', ''were'', ''had'', ''did''];
          present_tense_indicators = [''is'', ''are'', ''has'', ''does''];
          past_count = sum_list (map (\<lambda>word. int (count_sub (lower text) word))
                                     past_tense_indicators);
          present_count = sum_list (map (\<lambda>word. int (count_sub (lower text) word))
                                        present_tense_indicators);
          issues =
            (if past_count > 0 \<and> present_count > 0 \<and>
                \<bar>past_count - present_count\<bar> < min past_count present_count
             then issues @ [''Potential tense inconsistency'']
             else issues)
      in issues)"

definition attributed_dialogue_pattern :: rx where
  \<comment> \<open>\<^verbatim>\<open>"[^"]*"\s*[^"]*?(said|asked|replied|whispered|shouted)\<close>, used with
      \<open>re.IGNORECASE\<close>\<close>
  "attributed_dialogue_pattern =
     rx_seq [Sym (c_chr quote), many0 c_not_quote, Sym (c_chr quote), many0 c_space,
             Rep c_not_quote 0 None False,
             rx_alts [rx_lit ''said'', rx_lit ''asked'', rx_lit ''replied'', rx_lit ''whispered'',
                      rx_lit ''shouted'']]"

definition analyze_character_issues :: "string \<Rightarrow> string list" where
  "analyze_character_issues text =
     (let issues = [];
          character_names = set (re_findall False name_pattern text);
          common_words = set [''The'', ''This'', ''That'', ''Then'', ''When'', ''Where'', ''What'',
                              ''Who'', ''How'', ''But'', ''And''];
          character_names = character_names - common_words;
          issues =
            (if card character_names > 10
             then issues @ [''Too many character names introduced - may confuse readers'']
             else issues);
          dialogue_lines = re_findall False dialogue_pattern text;
          attributed_dialogue = re_findall True attributed_dialogue_pattern text;
          issues =
            (if dialogue_lines \<noteq> [] \<and>
                real (length attributed_dialogue) < real (length dialogue_lines) * 0.3
             then issues @ [''Many dialogue lines lack clear attribution'']
             else issues)
      in issues)"

definition analyze_pacing_issues :: "string \<Rightarrow> string list" where
  "analyze_pacing_issues text =
     (let issues = [];
          sentences = sentences_of text;
          sentence_lengths = word_counts (filter (\<lambda>s. strip s \<noteq> []) sentences)
      in if sentence_lengths = [] then issues
         else
           (let avg_length = mean sentence_lengths;
                issues =
                  (if avg_length > 25
                   then issues @ [''Sentences are too long on average - may slow pacing'']
                   else if avg_length < 8
                   then issues @ [''Sentences are too short on average - may feel choppy'']
                   else issues);
                issues =
                  (if length sentence_lengths > 5 then
                     (let v = variance sentence_lengths
                      in if v < 10
                         then issues @ [''Lack of sentence length variety - monotonous pacing'']
                         else issues)
                   else issues)
            in issues))"

definition analyze_dialogue_issues :: "string \<Rightarrow> string list" where
  "analyze_dialogue_issues text =
     (let issues = [];
          dialogue_matches = re_findall False dialogue_pattern text
      in if dialogue_matches = [] then issues
         else
           (let long_dialogue = filter (\<lambda>d. length (split_ws d) > 50) dialogue_matches;
                issues =
                  (if long_dialogue \<noteq> []
                   then issues @ [''Found '' @ str_nat (length long_dialogue) @
                                  '' overly long dialogue segments'']
                   else issues);
                contractions = count_where (\<lambda>d. apostrophe \<in> set d) dialogue_matches;
                issues =
                  (if contractions = 0 \<and> length dialogue_matches > 3
                   then issues @ [''Dialogue lacks contractions - may sound unnatural'']
                   else issues);
                said_count = count_sub (lower text) '' said'';
                issues =
                  (if real said_count > real (length dialogue_matches) * 0.8
                   then issues @ [''Overuse of '' @ [apostrophe] @ ''said'' @ [apostrophe] @
                                  '' - dialogue tags lack variety'']
                   else issues)
            in issues))"

fun bump :: "(string \<times> nat) list \<Rightarrow> string \<Rightarrow> (string \<times> nat) list" where
  \<comment> \<open>\<open>d[k] = d.get(k, 0) + 1\<close> on a dictionary, which keeps the order of insertion\<close>
  "bump [] k = [(k, 1)]"
| "bump ((k', n) # d) k = (if k' = k then (k', n + 1) # d else (k', n) # bump d k)"

definition analyze_prose_issues :: "string \<Rightarrow> string list" where
  "analyze_prose_issues text =
     (let issues = [];
          words = split_ws text
      in if words = [] then issues
         else
           (let adverbs = filter (\<lambda>word. endswith word ''ly'') words;
                adverb_ratio = real (length adverbs) / real (length words);
                issues =
                  (if adverb_ratio > 0.1
                   then issues @ [''Excessive use of adverbs ('' @ str_nat (length adverbs) @
                                  '' found) - consider stronger verbs'']
                   else issues);
                weak_verbs = [''went'', ''got'', ''put'', ''look'', ''come'', ''go''];
                weak_verb_count = sum_list (map (\<lambda>verb. count_list words verb) weak_verbs);
                issues =
                  (if real weak_verb_count > real (length words) * 0.05
                   then issues @ [''Overuse of weak verbs - consider more specific alternatives'']
                   else issues);
                word_freq = foldl bump []
                  (filter (\<lambda>word_lower. length word_lower > 4) (map lower words));
                repeated_words =
                  filter (\<lambda>(word, count). count > 5 \<and>
                            word \<notin> set [''that'', ''with'', ''have'', ''this'', ''they'', ''were'',
                                         ''been''])
                    word_freq;
                issues =
                  (if repeated_words \<noteq> []
                   then issues @ [''Repetitive word usage: '' @
                          str_join '', ''
                            (map (\<lambda>(word, count). word @ ''('' @ str_nat count @ '')'')
                               (take 3 repeated_words))]
                   else issues)
            in issues))"

definition analyze_problems :: "string \<Rightarrow> problem_analysis" where
  \<comment> \<open>the optional \<open>context\<close> of the source is read by none of the analyses\<close>
  "analyze_problems text =
     (let structural = analyze_structural_issues text;
          narrative = analyze_narrative_issues text;
          character = analyze_character_issues text;
          pacing = analyze_pacing_issues text;
          dialogue = analyze_dialogue_issues text;
          prose = analyze_prose_issues text;
          total_issues = length structural + length narrative + length character +
                         length pacing + length dialogue + length prose;
          severity = min 1.0 (real total_issues / 20)
      in \<lparr>structural_issues = structural, narrative_issues = narrative,
          character_issues = character, pacing_issues = pacing,
          dialogue_issues = dialogue, prose_issues = prose,
          severity_score = severity\<rparr>)"

section \<open>The text of a list of strings\<close>

text \<open>
  The rewriting tiers test \<open>'...' in str(issues)\<close>, where \<open>str\<close> of a list is the text
  of the list as Python prints it: the \<open>repr\<close> of each element, separated by a comma and
  a space, in square brackets.
\<close>

definition backslash :: char where
  "backslash = CHR 0x5C"

definition is_printable :: "char \<Rightarrow> bool" where
  \<comment> \<open>\<open>str.isprintable\<close>\<close>
  "is_printable c = (let n = ord_char c in
     (32 \<le> n \<and> n \<le> 126) \<or> (161 \<le> n \<and> n \<le> 172) \<or> 174 \<le> n)"

definition hex_digit :: "nat \<Rightarrow> char" where
  "hex_digit n = (if n < 10 then char_of (48 + n) else char_of (87 + n))"

definition repr_char :: "char \<Rightarrow> char \<Rightarrow> string" where
  \<comment> \<open>one character inside the quotes \<open>q\<close>\<close>
  "repr_char q c =
     (if c = q \<or> c = backslash then [backslash, c]
      else if c = CHR 0x09 then [backslash, CHR ''t'']
      else if c = CHR 0x0A then [backslash, CHR ''n'']
      else if c = CHR 0x0D then [backslash, CHR ''r'']
      else if is_printable c then [c]
      else [backslash, CHR ''x'', hex_digit (ord_char c div 16), hex_digit (ord_char c mod 16)])"

definition repr_quote :: "string \<Rightarrow> char" where
  \<comment> \<open>double quotes when the string has an apostrophe and no double quote\<close>
  "repr_quote s = (if apostrophe \<in> set s \<and> quote \<notin> set s then quote else apostrophe)"

definition py_repr :: "string \<Rightarrow> string" where
  "py_repr s = (let q = repr_quote s in [q] @ concat (map (repr_char q) s) @ [q])"

definition py_str_list :: "string list \<Rightarrow> string" where
  "py_str_list xs = ''['' @ str_join '', '' (map py_repr xs) @ '']''"

section \<open>Rewriting\<close>

datatype rewrite_intensity = LIGHT | MODERATE | COMPREHENSIVE

record preservation_controls =
  preserve_dialogue :: "string list option"
  preserve_character_names :: bool
  preserve_plot_points :: "string list option"
  preserve_scenes :: "int list option"

text \<open>
  The field \<open>custom_preservations\<close> of the source, a dictionary of values of any type that
  nothing reads, is left out of the record.
\<close>

definition adverb_pattern :: rx where
  \<comment> \<open>\<^verbatim>\<open>\b\w+ly\b\<close>\<close>
  "adverb_pattern = rx_seq [WordB, many1 (OneOf [AWord]), rx_lit ''ly'', WordB]"

definition light_rewrite :: "string \<Rightarrow> problem_analysis \<Rightarrow> string" where
  \<comment> \<open>the second substitution replaces \<^verbatim>\<open>\s+\<close> by one space\<close>
  "light_rewrite text problems =
     (let rewritten = text;
          rewritten =
            (if contains ''Excessive use of adverbs'' (py_str_list (prose_issues problems)) then
               (let rewritten = re_sub False adverb_pattern
                      (\<lambda>m. if length m > 6 then [] else m) rewritten
                in re_sub False (many1 c_space) (\<lambda>m. '' '') rewritten)
             else rewritten);
          rewritten =
            (if contains (''Overuse of '' @ [apostrophe] @ ''said'' @ [apostrophe])
                  (py_str_list (dialogue_issues problems)) then
               (let alternatives = [''replied'', ''asked'', ''whispered'', ''murmured'', ''stated'']
                in foldl (\<lambda>rewritten alt. replace_first '' said'' ('' '' @ alt) rewritten)
                     rewritten alternatives)
             else rewritten)
      in rewritten)"

definition split_keep :: "string \<Rightarrow> string list" where
  \<comment> \<open>\<open>re.split(r'([.!?]+)', text)\<close>: the pieces and, between them, the separators\<close>
  "split_keep text = re_split True (many1 c_sentence_end) text"

definition moderate_rewrite :: "string \<Rightarrow> problem_analysis \<Rightarrow> string" where
  "moderate_rewrite text problems =
     (let rewritten = light_rewrite text problems;
          rewritten =
            (if contains ''Lack of sentence length variety''
                  (py_str_list (pacing_issues problems)) then
               (let sentences = split_keep rewritten;
                    new_sentences = map
                      (\<lambda>sentence.
                         if CHR ''.'' \<in> set sentence \<or> CHR ''!'' \<in> set sentence \<or>
                            CHR ''?'' \<in> set sentence then sentence
                         else
                           (let words = split_ws sentence
                            in if length words > 20 then
                                 (let mid = length words div 2
                                  in str_join '' '' (take mid words) @ ''. '' @
                                     str_join '' '' (drop mid words))
                               else sentence))
                      sentences
                in concat new_sentences)
             else rewritten);
          rewritten =
            (if contains ''overly long paragraphs''
                  (py_str_list (structural_issues problems)) then
               (let paragraphs = split_sep rewritten [newline, newline];
                    new_paragraphs = concat (map
                      (\<lambda>para.
                         if length (split_ws para) > 150 then
                           (let sentences = split_keep para;
                                mid = length sentences div 2;
                                para1 = concat (take mid sentences);
                                para2 = concat (drop mid sentences)
                            in [para1, para2])
                         else [para])
                      paragraphs)
                in str_join [newline, newline] new_paragraphs)
             else rewritten)
      in rewritten)"

text \<open>
  The comprehensive tier draws from \<open>random.choice\<close>. The model threads the source of
  randomness through the rewriting: a sequence of numbers, of which every draw takes the
  first.
\<close>

type_synonym random_source = "nat \<Rightarrow> nat"

definition random_choice :: "'a list \<Rightarrow> random_source \<Rightarrow> 'a \<times> random_source" where
  "random_choice xs rnd = (xs ! (rnd 0 mod length xs), \<lambda>i. rnd (Suc i))"

fun sub_toks_st :: "(string \<Rightarrow> 's \<Rightarrow> string \<times> 's) \<Rightarrow> tok list \<Rightarrow> 's \<Rightarrow> string \<times> 's" where
  \<comment> \<open>\<open>re.sub\<close> with a function that has a state: the matches are replaced from left to
      right\<close>
  "sub_toks_st f [] st = ([], st)"
| "sub_toks_st f (Plain c # ts) st =
     (case sub_toks_st f ts st of (r, st') \<Rightarrow> (c # r, st'))"
| "sub_toks_st f (Found m # ts) st =
     (case f m st of (x, st1) \<Rightarrow>
        (case sub_toks_st f ts st1 of (r, st2) \<Rightarrow> (x @ r, st2)))"

definition improve_dialogue :: "string \<Rightarrow> random_source \<Rightarrow> string \<times> random_source" where
  \<comment> \<open>a match is a quote, the first group (which has no quote), a quote and the second
      group\<close>
  "improve_dialogue m rnd =
     (let dialogue = takeWhile (\<lambda>c. c \<noteq> quote) (tl m);
          attribution = drop (length dialogue + 2) m
      in if contains ''said'' attribution \<and> length (split_ws attribution) < 5 then
           (case random_choice [''with a smile'', ''nervously'', ''with confidence'', ''quietly'']
                   rnd of
              (emotion, rnd') \<Rightarrow>
                ([quote] @ dialogue @ [quote] @
                 replace_all ''said'' (''said '' @ emotion) attribution, rnd'))
         else ([quote] @ dialogue @ [quote] @ attribution, rnd))"

definition said_dialogue_pattern :: rx where
  \<comment> \<open>\<^verbatim>\<open>"([^"]*)"(\s*[^"]*?said[^.!?]*[.!?])\<close>\<close>
  "said_dialogue_pattern =
     rx_seq [Sym (c_chr quote), many0 c_not_quote, Sym (c_chr quote), many0 c_space,
             Rep c_not_quote 0 None False, rx_lit ''said'',
             many0 (NoneOf [AChar CHR ''.'', AChar CHR ''!'', AChar CHR ''?'']),
             Sym c_sentence_end]"

definition comprehensive_rewrite ::
  "string \<Rightarrow> problem_analysis \<Rightarrow> random_source \<Rightarrow> string \<times> random_source" where
  \<comment> \<open>\<open>re.sub(dialogue_pattern, improve_dialogue, rewritten)\<close>\<close>
  "comprehensive_rewrite text problems rnd =
     (let rewritten = moderate_rewrite text problems
      in sub_toks_st improve_dialogue (rx_scan False said_dialogue_pattern None rewritten 0) rnd)"

definition apply_preservation_controls ::
  "string \<Rightarrow> string \<Rightarrow> preservation_controls \<Rightarrow> string" where
  \<comment> \<open>Python leaves the order in which a set is run through unspecified, and for strings
      it changes with the hash seed; the model runs through the missing names in the
      order of \<open>remdups\<close> of their occurrences. With two missing names or more the code
      has a result for every order and the model gives the one of this order; with at
      most one missing name there is one order only\<close>
  "apply_preservation_controls rewritten original controls =
     (let rewritten =
            (case preserve_dialogue controls of
               None \<Rightarrow> rewritten
             | Some dialogues \<Rightarrow>
                 foldl (\<lambda>rewritten dialogue.
                          if contains dialogue original \<and> \<not> contains dialogue rewritten
                          then rewritten @ [newline, newline] @ dialogue
                          else rewritten)
                   rewritten dialogues);
          rewritten =
            (if preserve_character_names controls then
               (let original_names = re_findall False name_pattern original;
                    rewritten_names = re_findall False name_pattern rewritten;
                    missing_names =
                      filter (\<lambda>name. name \<notin> set rewritten_names) (remdups original_names)
                in foldl (\<lambda>rewritten name.
                            if name \<notin> set [''The'', ''This'', ''That'', ''Then'', ''When'', ''Where'']
                            then
                              (if contains ('' '' @ name @ '' '') original \<and>
                                  \<not> contains ('' '' @ name @ '' '') rewritten
                               then replace_first '' he '' ('' '' @ name @ '' '') rewritten
                               else rewritten)
                            else rewritten)
                     rewritten missing_names)
             else rewritten)
      in rewritten)"

definition generate_rewrite ::
  "string \<Rightarrow> problem_analysis \<Rightarrow> rewrite_intensity \<Rightarrow> preservation_controls option
     \<Rightarrow> random_source \<Rightarrow> string \<times> random_source" where
  "generate_rewrite text problems intensity preservation rnd =
     (case (case intensity of
              LIGHT \<Rightarrow> (light_rewrite text problems, rnd)
            | MODERATE \<Rightarrow> (moderate_rewrite text problems, rnd)
            | COMPREHENSIVE \<Rightarrow> comprehensive_rewrite text problems rnd) of
        (rewritten, rnd') \<Rightarrow>
          (case preservation of
             None \<Rightarrow> (rewritten, rnd')
           | Some controls \<Rightarrow> (apply_preservation_controls rewritten text controls, rnd')))"

section \<open>The rewriting loop\<close>

record rewrite_report =
  original_metrics :: quality_metrics
  final_metrics :: quality_metrics
  improvements :: "string \<rightharpoonup> real"
  iterations_required :: int

text \<open>
  The report of the source has two more fields, \<open>changes_made\<close> and \<open>preserved_elements\<close>:
  lists of texts for display, computed after the loop from the two texts by functions
  that raise nothing. The model leaves them out, and with them the list
  \<open>improvements_made\<close>, which the loop builds and nothing reads.
\<close>

definition calculate_improvements ::
  "quality_metrics \<Rightarrow> quality_metrics \<Rightarrow> (string \<rightharpoonup> real)" where
  "calculate_improvements original final =
     map_of
       [(''readability'', readability_score final - readability_score original),
        (''story_structure'', story_structure_score final - story_structure_score original),
        (''character_consistency'',
           character_consistency_score final - character_consistency_score original),
        (''pacing'', pacing_score final - pacing_score original),
        (''dialogue_effectiveness'',
           dialogue_effectiveness_score final - dialogue_effectiveness_score original),
        (''narrative_flow'', narrative_flow_score final - narrative_flow_score original),
        (''tension'', tension_score final - tension_score original),
        (''prose_quality'', prose_quality_score final - prose_quality_score original),
        (''overall'', overall_score final - overall_score original)]"

definition chapter_text :: "string \<Rightarrow> chapter_boundary \<Rightarrow> string" where
  \<comment> \<open>\<open>manuscript[chapter.start_position:chapter.end_position]\<close>\<close>
  "chapter_text manuscript chapter =
     slice manuscript (start_position chapter) (end_position chapter)"

fun chapter_scores ::
  "string \<Rightarrow> chapter_boundary list \<Rightarrow> py_error + (chapter_boundary \<times> real) list" where
  "chapter_scores manuscript [] = Inr []"
| "chapter_scores manuscript (chapter # chapters) =
     (case assess_quality (chapter_text manuscript chapter) of
        Inl e \<Rightarrow> Inl e
      | Inr metrics \<Rightarrow>
          (case chapter_scores manuscript chapters of
             Inl e \<Rightarrow> Inl e
           | Inr scores \<Rightarrow> Inr ((chapter, overall_score metrics) # scores)))"

definition min_by_score :: "(chapter_boundary \<times> real) list \<Rightarrow> chapter_boundary \<times> real" where
  \<comment> \<open>\<open>min(scores, key=lambda x: x[1])\<close> on a list that is not empty: the first of the
      smallest\<close>
  "min_by_score scores =
     foldl (\<lambda>best x. if snd x < snd best then x else best) (hd scores) (tl scores)"

definition select_chapter :: "string \<Rightarrow> int option \<Rightarrow> py_error + chapter_boundary" where
  \<comment> \<open>steps 1 and 2 of \<open>rewrite_chapter\<close>\<close>
  "select_chapter manuscript chapter_no =
     (let chapters = detect_chapters manuscript
      in if chapters = [] then Inl NoChaptersDetected
         else
           (case chapter_no of
              None \<Rightarrow>
                (case chapter_scores manuscript chapters of
                   Inl e \<Rightarrow> Inl e
                 | Inr scores \<Rightarrow> Inr (fst (min_by_score scores)))
            | Some n \<Rightarrow>
                (let target_chapters = filter (\<lambda>c. chapter_number c = n) chapters
                 in if target_chapters = [] then Inl (ChapterNotFound n)
                    else Inr (hd target_chapters))))"

function rewrite_loop ::
  "quality_metrics \<Rightarrow> rewrite_intensity \<Rightarrow> preservation_controls option \<Rightarrow> int \<Rightarrow>
   string \<Rightarrow> problem_analysis \<Rightarrow> int \<Rightarrow> random_source \<Rightarrow> py_error + (string \<times> int)" where
  \<comment> \<open>step 6: the state of the \<open>while\<close> loop is the current text, the problems, the count
      of iterations and the source of randomness; the result is the text and the count
      when the loop is left\<close>
  "rewrite_loop baseline intensity preservation max_iterations
       current_text problems iterations rnd =
     (if iterations < max_iterations then
        (case generate_rewrite current_text problems intensity preservation rnd of
           (rewritten_text, rnd') \<Rightarrow>
             (case assess_quality rewritten_text of
                Inl e \<Rightarrow> Inl e
              | Inr new_metrics \<Rightarrow>
                  if is_better_than new_metrics baseline then
                    (if overall_score new_metrics > 0.9 then Inr (rewritten_text, iterations + 1)
                     else
                       (let problems' = analyze_problems rewritten_text
                        in if severity_score problems' < 0.2
                           then Inr (rewritten_text, iterations + 1)
                           else rewrite_loop baseline intensity preservation
                                  max_iterations rewritten_text problems' (iterations + 1) rnd'))
                  else if iterations + 1 < max_iterations then
                    rewrite_loop baseline intensity preservation max_iterations
                      current_text problems (iterations + 1) rnd'
                  else Inr (current_text, iterations + 1)))
      else Inr (current_text, iterations))"
  by pat_completeness auto
termination
  by (relation "measure (\<lambda>(b, i, pc, max_iterations, t, p, iterations, r).
        nat (max_iterations - iterations))") auto

declare rewrite_loop.simps [simp del]

definition rewrite_chapter ::
  "string \<Rightarrow> int option \<Rightarrow> rewrite_intensity \<Rightarrow> preservation_controls option \<Rightarrow> int \<Rightarrow>
   random_source \<Rightarrow> py_error + (string \<times> rewrite_report)" where
  "rewrite_chapter manuscript chapter_no intensity preservation max_iterations rnd =
     (case select_chapter manuscript chapter_no of
        Inl e \<Rightarrow> Inl e
      | Inr target_chapter \<Rightarrow>
          (let original_text = chapter_text manuscript target_chapter
           in case assess_quality original_text of
                Inl e \<Rightarrow> Inl e
              | Inr baseline \<Rightarrow>
                  (let problems = analyze_problems original_text
                   in case rewrite_loop baseline intensity preservation max_iterations
                             original_text problems 0 rnd of
                        Inl e \<Rightarrow> Inl e
                      | Inr (current_text, iterations) \<Rightarrow>
                          (case assess_quality current_text of
                             Inl e \<Rightarrow> Inl e
                           | Inr final \<Rightarrow>
                               Inr (current_text,
                                    \<lparr>original_metrics = baseline,
                                     final_metrics = final,
                                     improvements =
                                       calculate_improvements baseline final,
                                     iterations_required = iterations\<rparr>)))))"

section \<open>Properties of the boundary list, as stated\<close>

definition chained :: "nat \<Rightarrow> chapter_boundary list \<Rightarrow> bool" where
  \<comment> \<open>the numbers ascend from 1, every boundary ends where the next starts, and the
      last ends at \<open>n\<close>\<close>
  "chained n chapters =
     ((\<forall>i < length chapters. chapter_number (chapters ! i) = int i + 1) \<and>
      (\<forall>i. Suc i < length chapters \<longrightarrow>
           end_position (chapters ! i) = start_position (chapters ! Suc i)) \<and>
      (chapters \<noteq> [] \<longrightarrow> end_position (last chapters) = n))"

definition two_chapters :: string where
  "two_chapters =
     ''Chapter 1'' @ [CHR 0x0A] @ ''text'' @ [CHR 0x0A] @ ''Chapter 2'' @ [CHR 0x0A] @ ''more''"

section \<open>Concrete inputs and values\<close>

definition neutral_metrics :: quality_metrics where
  \<comment> \<open>the scores of a text without words: the four assessments that have a neutral
      default return it, the other four return zero\<close>
  "neutral_metrics =
     \<lparr>readability_score = 0, story_structure_score = 0, character_consistency_score = 0.7,
      pacing_score = 0, dialogue_effectiveness_score = 0.6, narrative_flow_score = 0.5,
      tension_score = 0.5, prose_quality_score = 0, overall_score = 0.2875\<rparr>"

definition quickly_metrics :: quality_metrics where
  \<comment> \<open>the scores of the text \<open>quickly !\<close>\<close>
  "quickly_metrics =
     \<lparr>readability_score = 4 / 5, story_structure_score = 1 / 2,
      character_consistency_score = 7 / 10, pacing_score = 13 / 25,
      dialogue_effectiveness_score = 3 / 5, narrative_flow_score = 1 / 2,
      tension_score = 57 / 100, prose_quality_score = 4 / 5, overall_score = 499 / 800\<rparr>"

definition blank :: "string \<Rightarrow> bool" where
  \<comment> \<open>empty or whitespace only\<close>
  "blank text = (\<forall>c \<in> set text. is_space c)"

definition adverb_problems :: problem_analysis where
  "adverb_problems =
     \<lparr>structural_issues = [], narrative_issues = [], character_issues = [], pacing_issues = [],
      dialogue_issues = [],
      prose_issues = [''Excessive use of adverbs (1 found) - consider stronger verbs''],
      severity_score = 0.05\<rparr>"

definition keep_dialogue :: "string list \<Rightarrow> preservation_controls" where
  \<comment> \<open>\<open>PreservationControls(preserve_dialogue=ds)\<close>, the other fields at their defaults\<close>
  "keep_dialogue ds =
     \<lparr>preserve_dialogue = Some ds, preserve_character_names = True,
      preserve_plot_points = None, preserve_scenes = None\<rparr>"

section \<open>Targets of the substring tests\<close>

definition plain_target :: "string \<Rightarrow> bool" where
  \<comment> \<open>what the proofs need of a text that is looked for in the text of a list\<close>
  "plain_target T =
     (T \<noteq> [] \<and> is_upper_az (hd T) \<and> backslash \<notin> set T \<and> quote \<notin> set T \<and>
      (\<forall>u t. T = u @ apostrophe # t \<and> apostrophe \<notin> set u \<longrightarrow>
             t \<noteq> [] \<and> hd t \<noteq> CHR '']'' \<and> hd t \<noteq> CHR '',''))"

definition weak_verb_problems :: problem_analysis where
  "weak_verb_problems =
     \<lparr>structural_issues = [], narrative_issues = [], character_issues = [], pacing_issues = [],
      dialogue_issues = [''Dialogue lacks contractions - may sound unnatural''],
      prose_issues = [''Overuse of weak verbs - consider more specific alternatives''],
      severity_score = 0.1\<rparr>"

section \<open>Dominance\<close>

lemma all_less_8:
  "(\<forall>i < (8::nat). P i) \<longleftrightarrow> P 0 \<and> P 1 \<and> P 2 \<and> P 3 \<and> P 4 \<and> P 5 \<and> P 6 \<and> P 7"
proof
  assume h: "\<forall>i < (8::nat). P i"
  show "P 0 \<and> P 1 \<and> P 2 \<and> P 3 \<and> P 4 \<and> P 5 \<and> P 6 \<and> P 7"
    using h by simp
next
  assume h: "P 0 \<and> P 1 \<and> P 2 \<and> P 3 \<and> P 4 \<and> P 5 \<and> P 6 \<and> P 7"
  show "\<forall>i < (8::nat). P i"
  proof (intro allI impI)
    fix i :: nat
    assume "i < 8"
    then have "i = 0 \<or> i = 1 \<or> i = 2 \<or> i = 3 \<or> i = 4 \<or> i = 5 \<or> i = 6 \<or> i = 7"
      by arith
    with h show "P i" by auto
  qed
qed

lemma is_better_than_iff_dominates: "is_better_than a b \<longleftrightarrow> dominates_spec a b"
  unfolding dominates_spec_def all_less_8
  by (simp add: is_better_than_def dimension_scores_def eval_nat_numeral)

text \<open>
  Claim C1. \<open>a.is_better_than(b)\<close> holds exactly when each of the eight dimension scores
  of \<open>a\<close> is at least the corresponding score of \<open>b\<close> and the overall score of \<open>a\<close> is
  strictly greater; in particular one lower dimension makes the predicate false.
\<close>

theorem is_better_than_dominance:
  "(is_better_than a b \<longleftrightarrow>
      (\<forall>i < 8. dimension_scores a ! i \<ge> dimension_scores b ! i) \<and>
      overall_score a > overall_score b) \<and>
   ((\<exists>i < 8. dimension_scores a ! i < dimension_scores b ! i) \<longrightarrow> \<not> is_better_than a b)"
proof -
  have eq: "is_better_than a b \<longleftrightarrow>
      (\<forall>i < 8. dimension_scores a ! i \<ge> dimension_scores b ! i) \<and>
      overall_score a > overall_score b"
    using is_better_than_iff_dominates [of a b] by (simp add: dominates_spec_def)
  have "\<not> is_better_than a b" if "\<exists>i < 8. dimension_scores a ! i < dimension_scores b ! i"
  proof
    assume "is_better_than a b"
    with eq have "\<forall>i < 8. dimension_scores a ! i \<ge> dimension_scores b ! i" by blast
    with that show False by (meson not_less)
  qed
  with eq show ?thesis by blast
qed

theorem is_better_than_dominance_witness:
  "is_better_than (example_metrics 1 1) (example_metrics 0 1) \<and>
   dimension_scores (example_metrics 0 1) ! 0 < dimension_scores (example_metrics (1/2) (1/2)) ! 0 \<and>
   overall_score (example_metrics 0 1) > overall_score (example_metrics (1/2) (1/2)) \<and>
   \<not> is_better_than (example_metrics 0 1) (example_metrics (1/2) (1/2))"
proof -
  have d: "dimension_scores (example_metrics 0 1) ! 0
             < dimension_scores (example_metrics (1/2) (1/2)) ! 0"
    by (simp add: dimension_scores_def example_metrics_def)
  then have ex: "\<exists>i < 8. dimension_scores (example_metrics 0 1) ! i
             < dimension_scores (example_metrics (1/2) (1/2)) ! i"
    by (intro exI [of _ 0]) simp
  have n: "\<not> is_better_than (example_metrics 0 1) (example_metrics (1/2) (1/2))"
    using is_better_than_dominance [of "example_metrics 0 1" "example_metrics (1/2) (1/2)"] ex
    by blast
  have all: "\<forall>i < 8. dimension_scores (example_metrics 1 1) ! i
             \<ge> dimension_scores (example_metrics 0 1) ! i"
    unfolding all_less_8
    by (simp add: dimension_scores_def example_metrics_def eval_nat_numeral)
  have ov: "overall_score (example_metrics 1 1) > overall_score (example_metrics 0 1)"
    by (simp add: example_metrics_def)
  have p: "is_better_than (example_metrics 1 1) (example_metrics 0 1)"
    using is_better_than_dominance [of "example_metrics 1 1" "example_metrics 0 1"] all ov
    by blast
  have ov2: "overall_score (example_metrics 0 1) > overall_score (example_metrics (1/2) (1/2))"
    by (simp add: example_metrics_def)
  from p d ov2 n show ?thesis by blast
qed

section \<open>Chapter boundaries\<close>

lemma detect_loop_no_heading:
  "\<forall>line \<in> set rest. \<not> matches_heading (strip line) \<Longrightarrow>
   detect_loop manuscript lines i rest chapters current_chapter = chapters"
  by (induction rest arbitrary: i) simp_all

lemma chained_Nil: "chained n []"
  by (simp add: chained_def)

lemma chained_single:
  "chapter_number c = 1 \<Longrightarrow> end_position c = n \<Longrightarrow> chained n [c]"
  by (simp add: chained_def)

lemma chained_snoc:
  assumes "chained n (ys @ [y])"
    and "chapter_number c = int (length ys) + 2" and "start_position c = p"
    and "end_position c = n"
  shows "chained n (ys @ [y\<lparr>end_position := p\<rparr>, c])"
proof -
  have a1: "chapter_number ((ys @ [y]) ! i) = int i + 1" if "i < Suc (length ys)" for i
    using assms(1) that by (simp add: chained_def)
  have a2: "end_position ((ys @ [y]) ! i) = start_position ((ys @ [y]) ! Suc i)"
    if "i < length ys" for i
    using assms(1) that by (simp add: chained_def)
  have n1: "chapter_number ((ys @ [y\<lparr>end_position := p\<rparr>, c]) ! i) = int i + 1"
    if "i < length (ys @ [y\<lparr>end_position := p\<rparr>, c])" for i
  proof -
    from that consider "i < length ys" | "i = length ys" | "i = Suc (length ys)"
      by fastforce
    then show ?thesis
    proof cases
      case 1
      with a1 [of i] show ?thesis by (simp add: nth_append)
    next
      case 2
      with a1 [of i] show ?thesis by (simp add: nth_append)
    next
      case 3
      with assms(2) show ?thesis by (simp add: nth_append)
    qed
  qed
  have n2: "end_position ((ys @ [y\<lparr>end_position := p\<rparr>, c]) ! i)
      = start_position ((ys @ [y\<lparr>end_position := p\<rparr>, c]) ! Suc i)"
    if "Suc i < length (ys @ [y\<lparr>end_position := p\<rparr>, c])" for i
  proof -
    from that consider "Suc i < length ys" | "Suc i = length ys" | "i = length ys"
      by fastforce
    then show ?thesis
    proof cases
      case 1
      with a2 [of i] show ?thesis by (simp add: nth_append)
    next
      case 2
      with a2 [of i] show ?thesis by (auto simp add: nth_append)
    next
      case 3
      with assms(3) show ?thesis by (simp add: nth_append)
    qed
  qed
  have n3: "end_position (last (ys @ [y\<lparr>end_position := p\<rparr>, c])) = n"
    using assms(4) by simp
  from n1 n2 n3 show ?thesis
    unfolding chained_def by blast
qed

lemma detect_loop_chained:
  "chained (length manuscript) chapters \<Longrightarrow> current_chapter = int (length chapters) + 1 \<Longrightarrow>
   chained (length manuscript) (detect_loop manuscript lines i rest chapters current_chapter)"
proof (induction rest arbitrary: i chapters current_chapter)
  case Nil
  then show ?case by simp
next
  case (Cons line rest)
  show ?case
  proof (cases "matches_heading (strip line)")
    case False
    with Cons show ?thesis by simp
  next
    case True
    define p where "p = get_position_at_line manuscript i"
    define c where "c = \<lparr>chapter_number = current_chapter, start_position = p,
        end_position = length manuscript, title = extract_chapter_title (strip line),
        confidence = calculate_confidence (strip line) i lines\<rparr>"
    define chapters1 where
      "chapters1 = (if chapters \<noteq> [] then close_last chapters p else chapters)"
    have step: "detect_loop manuscript lines i (line # rest) chapters current_chapter
        = detect_loop manuscript lines (i + 1) rest (chapters1 @ [c]) (current_chapter + 1)"
      using True by (simp add: Let_def p_def c_def chapters1_def)
    have len: "length chapters1 = length chapters"
      by (cases "chapters = []") (simp_all add: chapters1_def close_last_def)
    have ch: "chained (length manuscript) (chapters1 @ [c])"
    proof (cases "chapters = []")
      case True
      then show ?thesis
        using Cons.prems(2) by (simp add: chapters1_def chained_single c_def)
    next
      case False
      then obtain ys y where ys: "chapters = ys @ [y]"
        by (meson rev_exhaust)
      have "chained (length manuscript) (ys @ [y\<lparr>end_position := p\<rparr>, c])"
        using Cons.prems ys by (intro chained_snoc) (simp_all add: c_def)
      then show ?thesis
        using ys by (simp add: chapters1_def close_last_def)
    qed
    have "chained (length manuscript)
        (detect_loop manuscript lines (i + 1) rest (chapters1 @ [c]) (current_chapter + 1))"
      using ch Cons.prems(2) len by (intro Cons.IH) simp_all
    with step show ?thesis by simp
  qed
qed

lemma detect_chapters_chained: "chained (length manuscript) (detect_chapters manuscript)"
  using detect_loop_chained [OF chained_Nil, of 1 manuscript "split_sep manuscript [CHR 0x0A]" 0 "split_sep manuscript [CHR 0x0A]"]
  by (simp add: detect_chapters_def Let_def chained_single)

lemma detect_chapters_not_Nil: "detect_chapters manuscript \<noteq> []"
  by (simp add: detect_chapters_def Let_def)

text \<open>
  Claim C6. On a manuscript of which no line matches a heading pattern, \<open>detect_chapters\<close>
  returns exactly one boundary: chapter 1, from position 0 to the length of the
  manuscript, with confidence 1.0.
\<close>

theorem detect_chapters_fallback:
  "\<forall>line \<in> set (split_sep manuscript [CHR 0x0A]). \<not> matches_heading (strip line) \<Longrightarrow>
   detect_chapters manuscript =
     [\<lparr>chapter_number = 1, start_position = 0, end_position = length manuscript,
       title = None, confidence = 1.0\<rparr>]"
  by (simp add: detect_chapters_def Let_def detect_loop_no_heading)

theorem detect_chapters_fallback_witness:
  "split_sep ''one two'' [CHR 0x0A] = [''one two''] \<and>
   \<not> matches_heading (strip ''one two'') \<and>
   detect_chapters ''one two'' =
     [\<lparr>chapter_number = 1, start_position = 0, end_position = 7,
       title = None, confidence = 1.0\<rparr>]"
proof -
  have lines: "split_sep ''one two'' [CHR 0x0A] = [''one two'']"
    by code_simp
  have no: "\<not> matches_heading (strip ''one two'')"
    by code_simp
  have h: "\<forall>line \<in> set (split_sep ''one two'' [CHR 0x0A]). \<not> matches_heading (strip line)"
    using lines no by simp
  show ?thesis using lines no detect_chapters_fallback [OF h] by simp
qed

text \<open>
  Claim C7. In the list that \<open>detect_chapters\<close> returns the chapter numbers are
  1, 2, 3, ... in this order, every boundary ends where the next one starts, and the last
  boundary ends at the length of the manuscript.
\<close>

theorem detect_chapters_order:
  "(\<forall>i < length (detect_chapters manuscript).
      chapter_number (detect_chapters manuscript ! i) = int i + 1) \<and>
   (\<forall>i. Suc i < length (detect_chapters manuscript) \<longrightarrow>
      end_position (detect_chapters manuscript ! i)
        = start_position (detect_chapters manuscript ! Suc i)) \<and>
   detect_chapters manuscript \<noteq> [] \<and>
   end_position (last (detect_chapters manuscript)) = length manuscript"
  using detect_chapters_chained [of manuscript] detect_chapters_not_Nil [of manuscript]
  by (simp add: chained_def)

lemma two_chapters_detected:
  "map (\<lambda>c. (chapter_number c, start_position c, end_position c)) (detect_chapters two_chapters)
     = [(1, 0, 15), (2, 15, 29)]"
  by code_simp

theorem detect_chapters_order_witness:
  "Suc 0 < length (detect_chapters two_chapters) \<and>
   chapter_number (detect_chapters two_chapters ! Suc 0) = 2 \<and>
   end_position (detect_chapters two_chapters ! 0)
     = start_position (detect_chapters two_chapters ! Suc 0) \<and>
   end_position (last (detect_chapters two_chapters)) = length two_chapters"
proof -
  have len: "length (detect_chapters two_chapters) = 2"
    using arg_cong [OF two_chapters_detected, of length] by simp
  have lt: "Suc 0 < length (detect_chapters two_chapters)"
    using len by simp
  show ?thesis
    using lt detect_chapters_order [of two_chapters] by auto
qed

section \<open>Assessment of blank text\<close>

lemma space_not_special:
  assumes "is_space c"
  shows "c \<noteq> CHR ''.''" "c \<noteq> CHR ''!''" "c \<noteq> CHR ''?''" "c \<noteq> quote"
    "\<not> (ord_char CHR ''A'' \<le> ord_char c \<and> ord_char c \<le> ord_char CHR ''Z'')"
    "lower_char c = c"
  using assms by (auto simp: is_space_def ord_char_def quote_def lower_char_def Let_def)

lemma split_ws_blank: "blank s \<Longrightarrow> split_ws s = []"
  by (induction s) (simp_all add: blank_def)

lemma dropWhile_all: "\<forall>c \<in> set s. P c \<Longrightarrow> dropWhile P s = []"
  by (induction s) simp_all

lemma strip_blank: "blank s \<Longrightarrow> strip s = []"
  unfolding strip_def blank_def
  by (simp only: dropWhile_all rev.simps dropWhile.simps)

lemma rx_scan_no_match:
  "(\<And>c prev s'. c \<in> set s \<Longrightarrow> rx_match ic [r] prev (c # s') = None) \<Longrightarrow>
   rx_scan ic r prev s 0 = map Plain s"
  by (induction s arbitrary: prev) simp_all

lemma found_list_Plain: "found_list (map Plain s) = []"
  by (induction s) simp_all

lemma split_toks_Plain: "split_toks keep (map Plain s) = [s]"
  by (induction s) simp_all

lemma split_on_subset: "p \<in> set (split_on sep s k) \<Longrightarrow> set p \<subseteq> set s"
proof (induction sep s k arbitrary: p rule: split_on.induct)
  case (1 sep k)
  then show ?case by simp
next
  case (2 sep c cs k)
  then show ?case by auto
next
  case (3 sep c cs)
  show ?case
  proof (cases "prefix sep (c # cs)")
    case True
    with 3 show ?thesis by auto
  next
    case False
    with 3 show ?thesis
      by (fastforce split: list.splits)
  qed
qed

lemma contains_subset: "contains sub s \<Longrightarrow> set sub \<subseteq> set s"
proof (induction s)
  case Nil
  then show ?case by simp
next
  case (Cons a s)
  from Cons.prems have "prefix sub (a # s) \<or> contains sub s" by simp
  then show ?case
  proof
    assume "prefix sub (a # s)"
    then show ?thesis by (rule set_mono_prefix)
  next
    assume "contains sub s"
    with Cons.IH show ?thesis by auto
  qed
qed

lemma sentences_of_blank: "blank text \<Longrightarrow> sentences_of text = [text]"
proof -
  assume b: "blank text"
  have "rx_scan False (many1 c_sentence_end) None text 0 = map Plain text"
  proof (rule rx_scan_no_match)
    fix c prev s'
    assume "c \<in> set text"
    with b have "is_space c" by (simp add: blank_def)
    then show "rx_match False [many1 c_sentence_end] prev (c # s') = None"
      using space_not_special [of c]
      by (simp add: many1_def c_sentence_end_def atom_match_def)
  qed
  then show ?thesis
    by (simp add: sentences_of_def re_split_def split_toks_Plain)
qed

lemma paragraphs_of_blank: "blank text \<Longrightarrow> paragraphs_of text = []"
proof -
  assume b: "blank text"
  have "strip p = []" if "p \<in> set (split_sep text [newline, newline])" for p
  proof -
    from that have "set p \<subseteq> set text"
      unfolding split_sep_def by (rule split_on_subset)
    with b have "blank p" by (auto simp: blank_def)
    then show ?thesis by (rule strip_blank)
  qed
  then show ?thesis
    by (simp add: paragraphs_of_def filter_empty_conv)
qed

lemma names_blank: "blank text \<Longrightarrow> re_findall False name_pattern text = []"
proof -
  assume b: "blank text"
  have "rx_scan False name_pattern None text 0 = map Plain text"
  proof (rule rx_scan_no_match)
    fix c prev s'
    assume "c \<in> set text"
    with b have "is_space c" by (simp add: blank_def)
    then show "rx_match False [name_pattern] prev (c # s') = None"
      using space_not_special [of c]
      by (auto simp: name_pattern_def rx_seq_def c_upper_def atom_match_def)
  qed
  then show ?thesis
    by (simp add: re_findall_def found_list_Plain)
qed

lemma dialogue_blank: "blank text \<Longrightarrow> re_findall False dialogue_pattern text = []"
proof -
  assume b: "blank text"
  have "rx_scan False dialogue_pattern None text 0 = map Plain text"
  proof (rule rx_scan_no_match)
    fix c prev s'
    assume "c \<in> set text"
    with b have "is_space c" by (simp add: blank_def)
    then show "rx_match False [dialogue_pattern] prev (c # s') = None"
      using space_not_special [of c]
      by (simp add: dialogue_pattern_def rx_seq_def c_chr_def atom_match_def)
  qed
  then show ?thesis
    by (simp add: re_findall_def found_list_Plain)
qed

lemma lower_blank: "blank text \<Longrightarrow> lower text = text"
  by (simp add: blank_def lower_def space_not_special map_idI)

lemma not_contains_blank:
  "blank text \<Longrightarrow> \<exists>c \<in> set w. \<not> is_space c \<Longrightarrow> \<not> contains w text"
  using contains_subset [of w "text"] by (auto simp: blank_def)

lemma readability_blank: "blank text \<Longrightarrow> assess_readability text = Inr 0"
  by (simp add: assess_readability_def split_ws_blank)

lemma structure_blank: "blank text \<Longrightarrow> assess_story_structure text = 0"
  by (simp add: assess_story_structure_def paragraphs_of_blank)

lemma character_blank: "blank text \<Longrightarrow> assess_character_consistency text = 0.7"
  by (simp add: assess_character_consistency_def names_blank)

lemma pacing_blank: "blank text \<Longrightarrow> assess_pacing text = 0"
  by (simp add: assess_pacing_def sentences_of_blank strip_blank word_counts_def)

lemma dialogue_score_blank: "blank text \<Longrightarrow> assess_dialogue_effectiveness text = 0.6"
  by (simp add: assess_dialogue_effectiveness_def dialogue_blank)

lemma flow_blank: "blank text \<Longrightarrow> assess_narrative_flow text = 0.5"
  by (simp add: assess_narrative_flow_def paragraphs_of_blank)

lemma tension_blank: "blank text \<Longrightarrow> assess_tension text = 0.5"
proof -
  assume b: "blank text"
  have w: "\<not> contains w (lower text)" if "\<exists>c \<in> set w. \<not> is_space c" for w
    using b that by (simp add: lower_blank not_contains_blank)
  have "\<not> is_space CHR ''s''" "\<not> is_space CHR ''u''" "\<not> is_space CHR ''d''"
    "\<not> is_space CHR ''f''" "\<not> is_space CHR ''p''" "\<not> is_space CHR ''r''"
    "\<not> is_space CHR ''q''" "\<not> is_space CHR ''i''" "\<not> is_space CHR ''e''"
    "\<not> is_space CHR ''c''" "\<not> is_space CHR ''t''" "\<not> is_space CHR ''w''"
    "\<not> is_space CHR ''a''"
    by (simp_all add: is_space_def ord_char_def)
  then show ?thesis
    using b by (simp add: assess_tension_def count_where_def w sentences_of_blank strip_blank)
qed

lemma prose_blank: "blank text \<Longrightarrow> assess_prose_quality text = 0"
  by (simp add: assess_prose_quality_def split_ws_blank)

text \<open>
  Claim C3, as amended. On a text that is empty or whitespace only \<open>assess_quality\<close>
  raises nothing; it returns zero for readability, story structure, pacing and prose
  quality, and the neutral defaults 0.7 for character consistency, 0.6 for dialogue
  effectiveness, 0.5 for narrative flow and 0.5 for tension, so that the overall score
  is 0.2875.
\<close>

theorem assess_quality_blank:
  "\<forall>c \<in> set text. is_space c \<Longrightarrow> assess_quality text = Inr neutral_metrics"
proof -
  assume "\<forall>c \<in> set text. is_space c"
  then have b: "blank text" by (simp add: blank_def)
  show ?thesis
    by (simp add: assess_quality_def readability_blank [OF b] structure_blank [OF b]
        character_blank [OF b] pacing_blank [OF b] dialogue_score_blank [OF b]
        flow_blank [OF b] tension_blank [OF b] prose_blank [OF b] mean_def neutral_metrics_def
        Let_def)
qed

theorem assess_quality_blank_witness:
  "is_space CHR '' '' \<and> is_space CHR 0x0A \<and> is_space CHR 0x09 \<and>
   assess_quality [CHR '' '', CHR 0x0A, CHR 0x09] = Inr neutral_metrics"
proof -
  have sp: "is_space CHR '' ''" "is_space CHR 0x0A" "is_space CHR 0x09"
    by (simp_all add: is_space_def ord_char_def)
  then have h: "\<forall>c \<in> set [CHR '' '', CHR 0x0A, CHR 0x09]. is_space c"
    by simp
  show ?thesis using sp assess_quality_blank [OF h] by simp
qed

text \<open>
  The claim as stated, all scores zero, fails on the empty text.
\<close>

theorem assess_quality_empty_counterexample:
  "assess_quality [] = Inr neutral_metrics \<and>
   character_consistency_score neutral_metrics = 0.7 \<and>
   dialogue_effectiveness_score neutral_metrics = 0.6 \<and>
   narrative_flow_score neutral_metrics = 0.5 \<and>
   tension_score neutral_metrics = 0.5 \<and>
   overall_score neutral_metrics = 0.2875"
proof -
  have "assess_quality [] = Inr neutral_metrics" by code_simp
  then show ?thesis by (simp add: neutral_metrics_def)
qed

section \<open>A division by zero in the readability assessment\<close>

text \<open>
  \<open>_assess_readability\<close> divides the number of words by the number of sentences that
  are not blank. Its guard tests the list of all sentences, which \<open>re.split\<close> never
  returns empty, so a text whose only characters besides whitespace are sentence marks
  has words and no sentence, and the division raises. \<open>_assess_pacing\<close> guards the
  filtered list.
\<close>

lemma dialogue_default:
  "re_findall False dialogue_pattern text = [] \<Longrightarrow> assess_dialogue_effectiveness text = 0.6"
  by (simp add: assess_dialogue_effectiveness_def)

lemma assess_quality_dialogue_default:
  "re_findall False dialogue_pattern text = [] \<Longrightarrow> assess_quality text = Inr m \<Longrightarrow>
   dialogue_effectiveness_score m = 0.6"
  by (auto simp: assess_quality_def Let_def dialogue_default split: sum.splits)

text \<open>
  Claim C8 says that \<open>assess_quality\<close> returns a dialogue score of 0.6 on every text
  that is not empty and has no quoted segment. On the text \<open>!\<close>, which is such a text,
  it raises \<open>ZeroDivisionError\<close> and returns no scores.
\<close>

theorem assess_quality_raises:
  "''!'' \<noteq> [] \<and> re_findall False dialogue_pattern ''!'' = [] \<and>
   assess_quality ''!'' = Inl ZeroDivisionError"
  by code_simp

lemma select_chapter_not_found:
  "n \<notin> chapter_number ` set (detect_chapters manuscript) \<Longrightarrow>
   select_chapter manuscript (Some n) = Inl (ChapterNotFound n)"
proof -
  assume "n \<notin> chapter_number ` set (detect_chapters manuscript)"
  then have "filter (\<lambda>c. chapter_number c = n) (detect_chapters manuscript) = []"
    by (auto simp: filter_empty_conv)
  then show ?thesis
    by (simp add: select_chapter_def Let_def detect_chapters_not_Nil)
qed

lemma select_chapter_found:
  "n \<in> chapter_number ` set (detect_chapters manuscript) \<Longrightarrow>
   \<exists>c. select_chapter manuscript (Some n) = Inr c \<and> chapter_number c = n \<and>
       c \<in> set (detect_chapters manuscript)"
proof -
  assume "n \<in> chapter_number ` set (detect_chapters manuscript)"
  then have ne: "filter (\<lambda>c. chapter_number c = n) (detect_chapters manuscript) \<noteq> []"
    by (auto simp: filter_empty_conv)
  then have "hd (filter (\<lambda>c. chapter_number c = n) (detect_chapters manuscript))
      \<in> set (filter (\<lambda>c. chapter_number c = n) (detect_chapters manuscript))"
    by (rule hd_in_set)
  with ne show ?thesis
    by (simp add: select_chapter_def Let_def detect_chapters_not_Nil)
qed

lemma select_chapter_never_no_chapters:
  "select_chapter manuscript chapter_no \<noteq> Inl NoChaptersDetected"
proof -
  have "chapter_scores manuscript chapters \<noteq> Inl NoChaptersDetected" for chapters
    by (induction chapters)
       (auto simp: assess_quality_def assess_readability_def Let_def split: sum.splits if_splits)
  then show ?thesis
    by (auto simp: select_chapter_def Let_def detect_chapters_not_Nil
        split: option.splits sum.splits)
qed

text \<open>
  Claim C9 says that chapter selection raises the chapter-not-found error when the
  number given matches no boundary, the no-chapters error only on an empty list of
  boundaries, and nothing in all other cases. Without a number given, selection assesses
  every chapter; on the manuscript \<open>!\<close> the assessment of its one chapter raises
  \<open>ZeroDivisionError\<close>.
\<close>

theorem select_chapter_raises:
  "map chapter_number (detect_chapters ''!'') = [1] \<and>
   select_chapter ''!'' None = Inl ZeroDivisionError \<and>
   rewrite_chapter ''!'' None MODERATE None 5 (\<lambda>i. 0) = Inl ZeroDivisionError"
proof -
  have a: "map chapter_number (detect_chapters ''!'') = [1]" by code_simp
  have b: "select_chapter ''!'' None = Inl ZeroDivisionError" by code_simp
  from a b show ?thesis by (simp add: rewrite_chapter_def)
qed

section \<open>Preservation of dialogue\<close>

text \<open>
  Claim C5 says that a dialogue string of the preservation controls that occurs in the
  input text occurs in the text that the rewrite step returns. The restoration of
  character names, which runs after the dialogue has been put back, overwrites the first
  \<open>he\<close> between spaces, also inside a preserved dialogue: here the light tier removes
  the name \<open>Beverly\<close> as an adverb, and the name is restored over the dialogue.
\<close>

theorem generate_rewrite_loses_dialogue:
  "contains ''did he go'' ''a Beverly did he go'' \<and>
   fst (generate_rewrite ''a Beverly did he go'' adverb_problems LIGHT
          (Some (keep_dialogue [''did he go''])) (\<lambda>i. 0)) = ''a did Beverly go'' \<and>
   \<not> contains ''did he go'' ''a did Beverly go''"
  by code_simp

section \<open>The light tier\<close>

text \<open>
  A text that starts with a capital letter and has neither a backslash nor a double quote
  occurs in \<open>str(issues)\<close> only inside one of the issues: the quotes, commas and
  brackets between the elements and the escapes inside them cannot take part in it.
\<close>

lemma contains_iff_sublist: "contains sub s \<longleftrightarrow> sublist sub s"
  by (induction s) (simp_all add: sublist_Cons_right)

lemma sublist_Cons_skip:
  "sublist T (a # Y) \<Longrightarrow> T \<noteq> [] \<Longrightarrow> hd T \<noteq> a \<Longrightarrow> sublist T Y"
  by (cases T) (auto simp: sublist_Cons_right)

lemma sublist_append_cases:
  assumes "sublist T (A @ Y)" and "T \<noteq> []"
  shows "sublist T Y \<or> (\<exists>a'. a' \<noteq> [] \<and> suffix a' A \<and> prefix T (a' @ Y))"
proof -
  from assms(1) obtain ys' where ys': "suffix ys' (A @ Y)" "prefix T ys'"
    by (auto simp: sublist_altdef')
  from ys'(1) consider "suffix ys' Y" | a' where "suffix a' A" "ys' = a' @ Y"
    by (auto simp: suffix_append)
  then show ?thesis
  proof cases
    case 1
    with ys'(2) show ?thesis by (auto simp: sublist_altdef')
  next
    case 2
    show ?thesis
    proof (cases "a' = []")
      case True
      with 2 ys'(2) show ?thesis by auto
    next
      case False
      with 2 ys'(2) show ?thesis by auto
    qed
  qed
qed

lemma hex_digit_not_upper: "n < 16 \<Longrightarrow> \<not> is_upper_az (hex_digit n)"
  by (auto simp: hex_digit_def is_upper_az_def ord_char_def Let_def)

lemma ord_char_less: "ord_char c < 256"
  by (simp add: ord_char_def)

lemma repr_char_cases:
  assumes "q = quote \<or> q = apostrophe"
  shows "(repr_char q c = [c] \<and> c \<noteq> q \<and> c \<noteq> backslash) \<or>
         (\<exists>r. repr_char q c = backslash # r \<and> (\<forall>x \<in> set r. \<not> is_upper_az x))"
proof -
  have h1: "\<not> is_upper_az (hex_digit (ord_char c div 16))"
    using ord_char_less [of c] by (intro hex_digit_not_upper) simp
  have h2: "\<not> is_upper_az (hex_digit (ord_char c mod 16))"
    by (intro hex_digit_not_upper) simp
  from assms h1 h2 show ?thesis
    by (auto simp: repr_char_def is_upper_az_def ord_char_def quote_def apostrophe_def
        backslash_def)
qed

lemma prefix_body:
  assumes "q = quote \<or> q = apostrophe"
  shows "backslash \<notin> set T \<Longrightarrow> prefix T (concat (map (repr_char q) s) @ rest) \<Longrightarrow>
     prefix T s \<or> (\<exists>T'. T = s @ T' \<and> prefix T' rest \<and> q \<notin> set s)"
proof (induction s arbitrary: T)
  case Nil
  then show ?case by simp
next
  case (Cons c s)
  show ?case
  proof (cases T)
    case Nil
    then show ?thesis by simp
  next
    case (Cons t T1)
    from repr_char_cases [OF assms, of c]
    show ?thesis
    proof
      assume plain: "repr_char q c = [c] \<and> c \<noteq> q \<and> c \<noteq> backslash"
      with Cons.prems(2) Cons have tc: "t = c" and p1: "prefix T1 (concat (map (repr_char q) s) @ rest)"
        by auto
      from Cons.prems(1) Cons have "backslash \<notin> set T1" by simp
      from Cons.IH [OF this p1] show ?thesis
      proof
        assume "prefix T1 s"
        with tc Cons show ?thesis by simp
      next
        assume "\<exists>T'. T1 = s @ T' \<and> prefix T' rest \<and> q \<notin> set s"
        then obtain T' where "T1 = s @ T'" "prefix T' rest" "q \<notin> set s" by blast
        with tc Cons plain show ?thesis by auto
      qed
    next
      assume "\<exists>r. repr_char q c = backslash # r \<and> (\<forall>x \<in> set r. \<not> is_upper_az x)"
      then obtain r where "repr_char q c = backslash # r" by blast
      with Cons.prems(2) Cons have "t = backslash" by auto
      with Cons.prems(1) Cons show ?thesis by simp
    qed
  qed
qed

lemma sublist_body:
  assumes q: "q = quote \<or> q = apostrophe"
    and T: "T \<noteq> []" "is_upper_az (hd T)" "backslash \<notin> set T"
  shows "sublist T (concat (map (repr_char q) s) @ rest) \<Longrightarrow>
     sublist T rest \<or> sublist T s \<or>
     (\<exists>u T'. suffix u s \<and> T = u @ T' \<and> T' \<noteq> [] \<and> prefix T' rest \<and> q \<notin> set u)"
proof (induction s)
  case Nil
  then show ?case by simp
next
  case (Cons c s)
  let ?Y = "concat (map (repr_char q) s) @ rest"
  from Cons.prems have "sublist T (repr_char q c @ ?Y)" by simp
  from sublist_append_cases [OF this T(1)]
  show ?case
  proof
    assume "sublist T ?Y"
    from Cons.IH [OF this] show ?thesis
      by (auto simp: suffix_Cons sublist_Cons_right)
  next
    assume "\<exists>a'. a' \<noteq> [] \<and> suffix a' (repr_char q c) \<and> prefix T (a' @ ?Y)"
    then obtain a' where a': "a' \<noteq> []" "suffix a' (repr_char q c)" "prefix T (a' @ ?Y)"
      by blast
    from repr_char_cases [OF q, of c]
    show ?thesis
    proof
      assume plain: "repr_char q c = [c] \<and> c \<noteq> q \<and> c \<noteq> backslash"
      with a'(1,2) have "a' = [c]" by (auto simp: suffix_Cons)
      with a'(3) plain have "prefix T (concat (map (repr_char q) (c # s)) @ rest)" by simp
      from prefix_body [OF q T(3) this]
      show ?thesis
      proof
        assume "prefix T (c # s)"
        then show ?thesis by auto
      next
        assume "\<exists>T'. T = (c # s) @ T' \<and> prefix T' rest \<and> q \<notin> set (c # s)"
        then obtain T' where T': "T = (c # s) @ T'" "prefix T' rest" "q \<notin> set (c # s)"
          by blast
        show ?thesis
        proof (cases "T' = []")
          case True
          with T'(1) show ?thesis by auto
        next
          case False
          with T' show ?thesis by (intro disjI2 exI [of _ "c # s"] exI [of _ T']) simp
        qed
      qed
    next
      assume "\<exists>r. repr_char q c = backslash # r \<and> (\<forall>x \<in> set r. \<not> is_upper_az x)"
      then obtain r where r: "repr_char q c = backslash # r" "\<forall>x \<in> set r. \<not> is_upper_az x"
        by blast
      from a'(1,3) T(1) have hd: "hd T = hd a'"
        by (cases T; cases a') auto
      from a'(2) r(1) have "a' = backslash # r \<or> suffix a' r"
        by (auto simp: suffix_Cons)
      then show ?thesis
      proof
        assume "a' = backslash # r"
        with hd T show ?thesis by (cases T) auto
      next
        assume "suffix a' r"
        with a'(1) have "hd a' \<in> set r"
          by (metis hd_in_set set_mono_suffix subsetD)
        with r(2) hd T(2) show ?thesis by auto
      qed
    qed
  qed
qed

lemma upper_not_delimiter:
  assumes "is_upper_az c"
  shows "c \<noteq> quote" "c \<noteq> apostrophe" "c \<noteq> CHR ''[''" "c \<noteq> CHR '']''" "c \<noteq> CHR '',''"
    "c \<noteq> CHR '' ''"
  using assms by (auto simp: is_upper_az_def ord_char_def quote_def apostrophe_def)

lemma not_sublist_bracket:
  assumes "T \<noteq> []" "is_upper_az (hd T)"
  shows "\<not> sublist T '']''"
proof
  assume "sublist T '']''"
  then have "set T \<subseteq> set '']''" by (rule set_mono_sublist)
  with assms(1) have "hd T = CHR '']''" by (cases T) auto
  with assms(2) upper_not_delimiter(4) show False by blast
qed

lemma repr_elem:
  assumes pt: "plain_target T"
    and Z: "Z = '']'' \<or> Z = '', '' @ Z'"
    and sub: "sublist T (py_repr x @ Z)"
  shows "sublist T x \<or> (Z = '', '' @ Z' \<and> sublist T Z')"
proof -
  define q where "q = repr_quote x"
  have q: "q = quote \<or> q = apostrophe" by (simp add: q_def repr_quote_def)
  from pt have T: "T \<noteq> []" "is_upper_az (hd T)" "backslash \<notin> set T" "quote \<notin> set T"
    by (simp_all add: plain_target_def)
  have hdq: "hd T \<noteq> q" using q upper_not_delimiter(1,2) [OF T(2)] by auto
  have skipZ: "sublist T Z \<Longrightarrow> Z = '', '' @ Z' \<and> sublist T Z'"
  proof -
    assume sz: "sublist T Z"
    from Z show ?thesis
    proof
      assume "Z = '']''"
      with sz not_sublist_bracket [OF T(1,2)] show ?thesis by simp
    next
      assume z: "Z = '', '' @ Z'"
      with sz have "sublist T (CHR '','' # CHR '' '' # Z')" by simp
      then have "sublist T (CHR '' '' # Z')"
        using T(1) upper_not_delimiter(5) [OF T(2)] by (rule sublist_Cons_skip)
      then have "sublist T Z'"
        using T(1) upper_not_delimiter(6) [OF T(2)] by (rule sublist_Cons_skip)
      with z show ?thesis by simp
    qed
  qed
  from sub have "sublist T (q # (concat (map (repr_char q) x) @ q # Z))"
    by (simp add: py_repr_def q_def Let_def)
  then have "sublist T (concat (map (repr_char q) x) @ q # Z)"
    using T(1) hdq by (rule sublist_Cons_skip)
  from sublist_body [OF q T(1,2,3) this]
  consider "sublist T (q # Z)" | "sublist T x"
    | u T' where "suffix u x" "T = u @ T'" "T' \<noteq> []" "prefix T' (q # Z)" "q \<notin> set u"
    by blast
  then show ?thesis
  proof cases
    case 1
    then have "sublist T Z" using T(1) hdq by (rule sublist_Cons_skip)
    with skipZ show ?thesis by simp
  next
    case 2
    then show ?thesis by simp
  next
    case 3
    from 3(3,4) obtain t where t: "T' = q # t" "prefix t Z"
      by (cases T') auto
    with 3(2) have Tq: "T = u @ q # t" by simp
    from q show ?thesis
    proof
      assume "q = quote"
      with Tq T(4) show ?thesis by simp
    next
      assume "q = apostrophe"
      with Tq 3(5) pt have "t \<noteq> [] \<and> hd t \<noteq> CHR '']'' \<and> hd t \<noteq> CHR '',''"
        by (simp add: plain_target_def)
      with t(2) Z show ?thesis by (cases t) auto
    qed
  qed
qed

lemma join_reprs:
  assumes pt: "plain_target T"
  shows "sublist T (str_join '', '' (map py_repr xs) @ '']'') \<Longrightarrow> \<exists>x \<in> set xs. sublist T x"
proof (induction xs rule: induct_list012)
  case 1
  from pt have "T \<noteq> []" "is_upper_az (hd T)" by (simp_all add: plain_target_def)
  from not_sublist_bracket [OF this] 1 show ?case by simp
next
  case (2 x)
  then have "sublist T (py_repr x @ '']'')" by simp
  from repr_elem [OF pt _ this, of "[]"] show ?case by simp
next
  case (3 x y zs)
  let ?Z' = "str_join '', '' (map py_repr (y # zs)) @ '']''"
  from 3(3) have "sublist T (py_repr x @ '', '' @ ?Z')" by simp
  from repr_elem [OF pt _ this, of ?Z'] have "sublist T x \<or> sublist T ?Z'" by simp
  with 3(2) show ?case by auto
qed

lemma contains_py_str_list:
  assumes "plain_target T" and "contains T (py_str_list xs)"
  shows "\<exists>x \<in> set xs. contains T x"
proof -
  from assms(1) have T: "T \<noteq> []" "is_upper_az (hd T)" by (simp_all add: plain_target_def)
  from assms(2) have "sublist T (CHR ''['' # (str_join '', '' (map py_repr xs) @ '']''))"
    by (simp add: contains_iff_sublist py_str_list_def)
  then have "sublist T (str_join '', '' (map py_repr xs) @ '']'')"
    using T(1) upper_not_delimiter(3) [OF T(2)] by (rule sublist_Cons_skip)
  from join_reprs [OF assms(1) this] show ?thesis
    by (simp add: contains_iff_sublist)
qed

lemma first_occurrence:
  "a \<notin> set xs \<Longrightarrow> a \<notin> set u \<Longrightarrow> xs @ a # ys = u @ a # t \<Longrightarrow> xs = u \<and> ys = t"
proof (induction xs arbitrary: u)
  case Nil
  then show ?case by (cases u) auto
next
  case (Cons x xs)
  then show ?case by (cases u) auto
qed

lemma plain_target_adverbs: "plain_target ''Excessive use of adverbs''"
proof -
  let ?T = "''Excessive use of adverbs''"
  have c1: "?T \<noteq> []" by simp
  have c2: "is_upper_az (hd ?T)" by (simp add: is_upper_az_def ord_char_def)
  have c3: "backslash \<notin> set ?T" by (simp add: backslash_def)
  have c4: "quote \<notin> set ?T" by (simp add: quote_def)
  have n: "apostrophe \<notin> set ?T" by (simp add: apostrophe_def)
  have c5: "\<forall>u t. ?T = u @ apostrophe # t \<and> apostrophe \<notin> set u \<longrightarrow>
      t \<noteq> [] \<and> hd t \<noteq> CHR '']'' \<and> hd t \<noteq> CHR '',''"
  proof (intro allI impI)
    fix u t
    assume "?T = u @ apostrophe # t \<and> apostrophe \<notin> set u"
    then have "apostrophe \<in> set ?T" by (metis in_set_conv_decomp)
    with n show "t \<noteq> [] \<and> hd t \<noteq> CHR '']'' \<and> hd t \<noteq> CHR '',''" by blast
  qed
  from c1 c2 c3 c4 c5 show ?thesis
    unfolding plain_target_def by blast
qed

lemma plain_target_said:
  "plain_target (''Overuse of '' @ [apostrophe] @ ''said'' @ [apostrophe])"
proof -
  let ?T = "''Overuse of '' @ [apostrophe] @ ''said'' @ [apostrophe]"
  have c1: "?T \<noteq> []" by simp
  have c2: "is_upper_az (hd ?T)" by (simp add: is_upper_az_def ord_char_def)
  have c3: "backslash \<notin> set ?T" by (simp add: backslash_def apostrophe_def)
  have c4: "quote \<notin> set ?T" by (simp add: quote_def apostrophe_def)
  have n: "apostrophe \<notin> set ''Overuse of ''" by (simp add: apostrophe_def)
  have c5: "\<forall>u t. ?T = u @ apostrophe # t \<and> apostrophe \<notin> set u \<longrightarrow>
      t \<noteq> [] \<and> hd t \<noteq> CHR '']'' \<and> hd t \<noteq> CHR '',''"
  proof (intro allI impI)
    fix u t
    assume h: "?T = u @ apostrophe # t \<and> apostrophe \<notin> set u"
    then have "''Overuse of '' @ apostrophe # (''said'' @ [apostrophe]) = u @ apostrophe # t"
      by simp
    from first_occurrence [OF n _ this] h have "t = ''said'' @ [apostrophe]" by blast
    then show "t \<noteq> [] \<and> hd t \<noteq> CHR '']'' \<and> hd t \<noteq> CHR '',''" by simp
  qed
  from c1 c2 c3 c4 c5 show ?thesis
    unfolding plain_target_def by blast
qed

text \<open>
  Claim C10. When no prose issue mentions \<open>Excessive use of adverbs\<close> and no
  dialogue issue mentions \<open>Overuse of 'said'\<close>, \<open>_light_rewrite\<close> returns its input
  unchanged.
\<close>

theorem light_rewrite_identity:
  assumes "\<forall>issue \<in> set (prose_issues problems). \<not> contains ''Excessive use of adverbs'' issue"
    and "\<forall>issue \<in> set (dialogue_issues problems).
           \<not> contains (''Overuse of '' @ [apostrophe] @ ''said'' @ [apostrophe]) issue"
  shows "light_rewrite text problems = text"
proof -
  have a: "\<not> contains ''Excessive use of adverbs'' (py_str_list (prose_issues problems))"
    using contains_py_str_list [OF plain_target_adverbs] assms(1) by blast
  have b: "\<not> contains (''Overuse of '' @ [apostrophe] @ ''said'' @ [apostrophe])
             (py_str_list (dialogue_issues problems))"
    using contains_py_str_list [OF plain_target_said] assms(2) by blast
  from a b show ?thesis by (simp add: light_rewrite_def)
qed

theorem light_rewrite_identity_witness:
  "prose_issues weak_verb_problems
     = [''Overuse of weak verbs - consider more specific alternatives''] \<and>
   \<not> contains ''Excessive use of adverbs''
        ''Overuse of weak verbs - consider more specific alternatives'' \<and>
   dialogue_issues weak_verb_problems
     = [''Dialogue lacks contractions - may sound unnatural''] \<and>
   \<not> contains (''Overuse of '' @ [apostrophe] @ ''said'' @ [apostrophe])
        ''Dialogue lacks contractions - may sound unnatural'' \<and>
   light_rewrite ''He said it really quickly'' weak_verb_problems = ''He said it really quickly''"
proof -
  have p: "prose_issues weak_verb_problems
     = [''Overuse of weak verbs - consider more specific alternatives'']"
    by (simp add: weak_verb_problems_def)
  have d: "dialogue_issues weak_verb_problems
     = [''Dialogue lacks contractions - may sound unnatural'']"
    by (simp add: weak_verb_problems_def)
  have n1: "\<not> contains ''Excessive use of adverbs''
        ''Overuse of weak verbs - consider more specific alternatives''"
    by code_simp
  have n2: "\<not> contains (''Overuse of '' @ [apostrophe] @ ''said'' @ [apostrophe])
        ''Dialogue lacks contractions - may sound unnatural''"
    by code_simp
  have h1: "\<forall>issue \<in> set (prose_issues weak_verb_problems).
      \<not> contains ''Excessive use of adverbs'' issue"
    using p n1 by simp
  have h2: "\<forall>issue \<in> set (dialogue_issues weak_verb_problems).
      \<not> contains (''Overuse of '' @ [apostrophe] @ ''said'' @ [apostrophe]) issue"
    using d n2 by simp
  show ?thesis
    using p d n1 n2 light_rewrite_identity [OF h1 h2, of "''He said it really quickly''"]
    by blast
qed

section \<open>The rewriting loop keeps the baseline as a floor\<close>

lemma rewrite_loop_result:
  "rewrite_loop baseline intensity preservation max_iterations current_text problems
     iterations rnd = Inr (res, n) \<Longrightarrow>
   res = current_text \<or> (\<exists>m. assess_quality res = Inr m \<and> is_better_than m baseline)"
proof (induction baseline intensity preservation max_iterations current_text problems
    iterations rnd rule: rewrite_loop.induct)
  case (1 baseline intensity preservation max_iterations current_text problems iterations rnd)
  show ?case
  proof (cases "iterations < max_iterations")
    case False
    with "1.prems" show ?thesis
      by (simp add: rewrite_loop.simps [of _ _ _ _ current_text])
  next
    case lt: True
    obtain rewritten rnd' where gen:
      "generate_rewrite current_text problems intensity preservation rnd = (rewritten, rnd')"
      by (cases "generate_rewrite current_text problems intensity preservation rnd")
    show ?thesis
    proof (cases "assess_quality rewritten")
      case (Inl e)
      with "1.prems" lt gen show ?thesis
        by (simp add: rewrite_loop.simps [of _ _ _ _ current_text])
    next
      case (Inr new_metrics)
      show ?thesis
      proof (cases "is_better_than new_metrics baseline")
        case better: True
        have dom: "\<exists>m. assess_quality rewritten = Inr m \<and> is_better_than m baseline"
          using Inr better by blast
        show ?thesis
        proof (cases "overall_score new_metrics > 0.9 \<or>
            severity_score (analyze_problems rewritten) < 0.2")
          case True
          with "1.prems" lt gen Inr better have "res = rewritten"
            by (auto simp: rewrite_loop.simps [of _ _ _ _ current_text] Let_def
                split: if_splits)
          with dom show ?thesis by blast
        next
          case False
          with "1.prems" lt gen Inr better have rec:
            "rewrite_loop baseline intensity preservation max_iterations rewritten
               (analyze_problems rewritten) (iterations + 1) rnd' = Inr (res, n)"
            by (auto simp: rewrite_loop.simps [of _ _ _ _ current_text] Let_def
                split: if_splits)
          have "res = rewritten \<or> (\<exists>m. assess_quality res = Inr m \<and> is_better_than m baseline)"
            using "1.IH"(1) [OF lt gen [symmetric] Inr better _ refl _ rec] False by auto
          with dom show ?thesis by blast
        qed
      next
        case worse: False
        show ?thesis
        proof (cases "iterations + 1 < max_iterations")
          case True
          with "1.prems" lt gen Inr worse have rec:
            "rewrite_loop baseline intensity preservation max_iterations current_text
               problems (iterations + 1) rnd' = Inr (res, n)"
            by (simp add: rewrite_loop.simps [of _ _ _ _ current_text])
          show ?thesis
            using "1.IH"(2) [OF lt gen [symmetric] Inr worse True rec] .
        next
          case False
          with "1.prems" lt gen Inr worse show ?thesis
            by (simp add: rewrite_loop.simps [of _ _ _ _ current_text])
        qed
      qed
    qed
  qed
qed

lemma rewrite_loop_once:
  assumes "generate_rewrite current_text problems intensity preservation rnd = (candidate, rnd')"
    and "assess_quality candidate = Inr new_metrics"
    and "\<not> is_better_than new_metrics baseline"
  shows "rewrite_loop baseline intensity preservation 1 current_text problems 0 rnd
           = Inr (current_text, 1)"
  using assms by (simp add: rewrite_loop.simps [of _ _ _ 1 current_text _ 0])

lemma calculate_improvements_same:
  "calculate_improvements m m k = Some d \<Longrightarrow> d = 0"
  by (simp add: calculate_improvements_def split: if_splits)

lemma calculate_improvements_overall:
  "calculate_improvements a b ''overall'' = Some (overall_score b - overall_score a)"
  by (simp add: calculate_improvements_def)

text \<open>
  Claim C2. In the report that \<open>rewrite_chapter\<close> returns, for any manuscript,
  intensity and bound on the iterations, the overall improvement is at least 0: a
  candidate is accepted only when it dominates the metrics of the original chapter, so
  either the final metrics dominate the original ones or the text returned is the
  original chapter and every improvement is 0.
\<close>

theorem rewrite_chapter_improves:
  assumes "rewrite_chapter manuscript chapter_no intensity preservation max_iterations rnd
             = Inr (res, report)"
  shows "(\<exists>d. improvements report ''overall'' = Some d \<and> d \<ge> 0) \<and>
         (is_better_than (final_metrics report) (original_metrics report) \<or>
          (\<exists>ch. select_chapter manuscript chapter_no = Inr ch \<and>
             res = chapter_text manuscript ch \<and>
             (\<forall>k d. improvements report k = Some d \<longrightarrow> d = 0)))"
proof -
  from assms obtain ch where sel: "select_chapter manuscript chapter_no = Inr ch"
    by (auto simp: rewrite_chapter_def split: sum.splits)
  let ?orig = "chapter_text manuscript ch"
  from assms sel obtain baseline where base: "assess_quality ?orig = Inr baseline"
    by (auto simp: rewrite_chapter_def Let_def split: sum.splits)
  from assms sel base obtain n where loop:
    "rewrite_loop baseline intensity preservation max_iterations ?orig
       (analyze_problems ?orig) 0 rnd = Inr (res, n)"
    by (auto simp: rewrite_chapter_def Let_def split: sum.splits prod.splits)
  from assms sel base loop obtain final where fin: "assess_quality res = Inr final"
    and rep: "report = \<lparr>original_metrics = baseline, final_metrics = final,
        improvements = calculate_improvements baseline final, iterations_required = n\<rparr>"
    by (auto simp: rewrite_chapter_def Let_def split: sum.splits prod.splits)
  from rewrite_loop_result [OF loop]
  show ?thesis
  proof
    assume same: "res = ?orig"
    with fin base have "final = baseline" by simp
    with rep same sel show ?thesis
      using calculate_improvements_same [of baseline]
      by (auto simp: calculate_improvements_overall)
  next
    assume "\<exists>m. assess_quality res = Inr m \<and> is_better_than m baseline"
    with fin have better: "is_better_than final baseline" by auto
    then have "overall_score final - overall_score baseline \<ge> 0"
      by (simp add: is_better_than_def)
    with rep better show ?thesis
      by (simp add: calculate_improvements_overall)
  qed
qed

theorem rewrite_chapter_improves_witness:
  "\<exists>res report.
     rewrite_chapter ''a Beverly did he go'' (Some 1) LIGHT None 3 (\<lambda>i. 0) = Inr (res, report) \<and>
     res = ''a did he go'' \<and>
     improvements report ''overall'' = Some (1 / 20) \<and> (0::real) \<le> 1 / 20 \<and>
     is_better_than (final_metrics report) (original_metrics report)"
proof -
  have e: "case rewrite_chapter ''a Beverly did he go'' (Some 1) LIGHT None 3 (\<lambda>i. 0) of
         Inl e \<Rightarrow> False
       | Inr (res, report) \<Rightarrow> res = ''a did he go'' \<and>
           improvements report ''overall'' = Some (1 / 20) \<and>
           is_better_than (final_metrics report) (original_metrics report)"
    by code_simp
  then obtain res report where r:
    "rewrite_chapter ''a Beverly did he go'' (Some 1) LIGHT None 3 (\<lambda>i. 0) = Inr (res, report)"
    by (auto split: sum.splits)
  with e have v: "res = ''a did he go''" "improvements report ''overall'' = Some (1 / 20)"
    "is_better_than (final_metrics report) (original_metrics report)"
    by simp_all
  from rewrite_chapter_improves [OF r] v(2) have "(0::real) \<le> 1 / 20" by auto
  with r v show ?thesis by blast
qed

text \<open>
  A run with \<open>max_iterations = 1\<close> whose candidate is assessed and does not dominate the
  baseline returns the chapter unchanged, with final metrics equal to the original ones
  and one iteration. The assessment of the candidate is a hypothesis here: where it
  raises, so does the run.
\<close>

lemma single_iteration_returns:
  assumes "select_chapter manuscript chapter_no = Inr ch"
    and "assess_quality (chapter_text manuscript ch) = Inr baseline"
    and "fst (generate_rewrite (chapter_text manuscript ch)
                (analyze_problems (chapter_text manuscript ch)) intensity preservation rnd)
           = candidate"
    and "assess_quality candidate = Inr new_metrics"
    and "\<not> is_better_than new_metrics baseline"
  shows "\<exists>report.
     rewrite_chapter manuscript chapter_no intensity preservation 1 rnd
       = Inr (chapter_text manuscript ch, report) \<and>
     original_metrics report = baseline \<and> final_metrics report = original_metrics report \<and>
     iterations_required report = 1"
proof -
  let ?orig = "chapter_text manuscript ch"
  obtain rnd' where gen:
    "generate_rewrite ?orig (analyze_problems ?orig) intensity preservation rnd = (candidate, rnd')"
    using assms(3) by (cases "generate_rewrite ?orig (analyze_problems ?orig) intensity preservation rnd") auto
  have "rewrite_loop baseline intensity preservation 1 ?orig (analyze_problems ?orig) 0 rnd
      = Inr (?orig, 1)"
    using gen assms(4,5) by (rule rewrite_loop_once)
  with assms(1,2) show ?thesis
    by (simp add: rewrite_chapter_def Let_def)
qed

lemma single_iteration_example:
  "\<exists>report.
     fst (generate_rewrite ''He ran suddenly'' (analyze_problems ''He ran suddenly'') LIGHT None
            (\<lambda>i. 0)) = ''He ran '' \<and>
     rewrite_chapter ''He ran suddenly'' None LIGHT None 1 (\<lambda>i. 0)
       = Inr (''He ran suddenly'', report) \<and>
     final_metrics report = original_metrics report \<and> iterations_required report = 1"
proof -
  define ch where "ch = \<lparr>chapter_number = 1, start_position = 0, end_position = 15,
      title = None, confidence = 1\<rparr>"
  define baseline where "baseline = \<lparr>readability_score = 4 / 5,
      story_structure_score = 11 / 20, character_consistency_score = 7 / 10,
      pacing_score = 13 / 25, dialogue_effectiveness_score = 3 / 5,
      narrative_flow_score = 1 / 2, tension_score = 57 / 100, prose_quality_score = 4 / 5,
      overall_score = 63 / 100\<rparr>"
  define new_metrics where "new_metrics = \<lparr>readability_score = 1,
      story_structure_score = 1 / 2, character_consistency_score = 7 / 10,
      pacing_score = 13 / 25, dialogue_effectiveness_score = 3 / 5,
      narrative_flow_score = 1 / 2, tension_score = 13 / 25, prose_quality_score = 1,
      overall_score = 267 / 400\<rparr>"
  have sel: "select_chapter ''He ran suddenly'' None = Inr ch"
    unfolding ch_def by code_simp
  have ct: "chapter_text ''He ran suddenly'' ch = ''He ran suddenly''"
    unfolding ch_def by code_simp
  have base: "assess_quality ''He ran suddenly'' = Inr baseline"
    unfolding baseline_def by code_simp
  have cand: "fst (generate_rewrite ''He ran suddenly'' (analyze_problems ''He ran suddenly'')
      LIGHT None (\<lambda>i. 0)) = ''He ran ''"
    by code_simp
  have new: "assess_quality ''He ran '' = Inr new_metrics"
    unfolding new_metrics_def by code_simp
  have nd: "\<not> is_better_than new_metrics baseline"
    by (simp add: is_better_than_def new_metrics_def baseline_def)
  from single_iteration_returns [of "''He ran suddenly''" None ch baseline LIGHT None
      "\<lambda>i. 0" "''He ran ''" new_metrics] sel ct base cand new nd
  obtain report where
    "rewrite_chapter ''He ran suddenly'' None LIGHT None 1 (\<lambda>i. 0)
       = Inr (''He ran suddenly'', report)"
    "final_metrics report = original_metrics report" "iterations_required report = 1"
    by auto
  with cand show ?thesis by auto
qed

text \<open>
  Claim C4 says that with \<open>max_iterations = 1\<close> every manuscript whose candidates never
  dominate the baseline gets a report with final metrics equal to the original ones and
  \<open>iterations_required = 1\<close>. On the manuscript \<open>quickly !\<close> the selection and the
  baseline assessment succeed and the one candidate of the light tier is the text of a
  space and \<open>!\<close>, which has a word and no sentence: its assessment raises
  \<open>ZeroDivisionError\<close>, the candidate dominates nothing, and \<open>rewrite_chapter\<close> raises
  instead of returning a report.
\<close>

theorem rewrite_chapter_candidate_raises:
  "select_chapter ''quickly !'' None
     = Inr \<lparr>chapter_number = 1, start_position = 0, end_position = 9, title = None,
             confidence = 1\<rparr> \<and>
   assess_quality ''quickly !'' = Inr quickly_metrics \<and>
   fst (generate_rewrite ''quickly !'' (analyze_problems ''quickly !'') LIGHT None (\<lambda>i. 0))
     = '' !'' \<and>
   assess_quality '' !'' = Inl ZeroDivisionError \<and>
   rewrite_chapter ''quickly !'' None LIGHT None 1 (\<lambda>i. 0) = Inl ZeroDivisionError"
proof -
  have sel: "select_chapter ''quickly !'' None
     = Inr \<lparr>chapter_number = 1, start_position = 0, end_position = 9, title = None,
             confidence = 1\<rparr>"
    by code_simp
  have base: "assess_quality ''quickly !'' = Inr quickly_metrics"
    unfolding quickly_metrics_def by code_simp
  have cand: "fst (generate_rewrite ''quickly !'' (analyze_problems ''quickly !'') LIGHT None
      (\<lambda>i. 0)) = '' !''"
    by code_simp
  have new: "assess_quality '' !'' = Inl ZeroDivisionError"
    by code_simp
  have ct: "chapter_text ''quickly !''
      \<lparr>chapter_number = 1, start_position = 0, end_position = 9, title = None,
        confidence = 1\<rparr> = ''quickly !''"
    by code_simp
  have loop: "rewrite_loop quickly_metrics LIGHT None 1 ''quickly !''
      (analyze_problems ''quickly !'') 0 (\<lambda>i. 0) = Inl ZeroDivisionError"
    unfolding quickly_metrics_def by code_simp
  have run: "rewrite_chapter ''quickly !'' None LIGHT None 1 (\<lambda>i. 0) = Inl ZeroDivisionError"
    using sel ct base loop by (simp add: rewrite_chapter_def)
  from sel base cand new run show ?thesis by blast
qed

end
